theory Spec2Isabelle
  imports Complex_Main "HOL-Library.Sublist" "HOL-Library.AList"
    "HOL-Library.Char_ord" "HOL-Library.List_Lexorder" "HOL-Library.Log_Nat"
begin

section \<open>Common notions\<close>

text \<open>
  Python text is modelled by \<^typ>\<open>string\<close>, one \<^typ>\<open>char\<close> per code point, for code
  points below 256 (Latin-1).  \<open>str.lower\<close> and \<open>str.isspace\<close> are written out for that
  range.
\<close>

definition lower_char :: "char \<Rightarrow> char" where
  "lower_char c =
     (let n = (of_char c :: nat)
      in if (65 \<le> n \<and> n \<le> 90) \<or> (192 \<le> n \<and> n \<le> 222 \<and> n \<noteq> 215)
         then char_of (n + 32) else c)"

definition lower :: "string \<Rightarrow> string" where
  "lower s = map lower_char s"

definition isspace :: "char \<Rightarrow> bool" where
  "isspace c =
     (let n = (of_char c :: nat)
      in (9 \<le> n \<and> n \<le> 13) \<or> (28 \<le> n \<and> n \<le> 32) \<or> n = 133 \<or> n = 160)"

definition strip :: "string \<Rightarrow> string" where
  "strip s = rev (dropWhile isspace (rev (dropWhile isspace s)))"

definition startswith :: "string \<Rightarrow> string \<Rightarrow> bool" where
  "startswith s p = prefix p s"

definition endswith :: "string \<Rightarrow> string \<Rightarrow> bool" where
  "endswith s p = suffix p s"

text \<open>\<open>sep.join(parts)\<close>.\<close>

fun join :: "string \<Rightarrow> string list \<Rightarrow> string" where
  "join sep [] = []"
| "join sep [x] = x"
| "join sep (x # y # ys) = x @ sep @ join sep (y # ys)"

text \<open>\<open>str(x)\<close> of an optional string: \<open>None\<close> prints as the text \<open>None\<close>.\<close>

definition str_opt :: "string option \<Rightarrow> string" where
  "str_opt t = (case t of None \<Rightarrow> ''None'' | Some s \<Rightarrow> s)"

text \<open>
  Python exceptions, as values.  A function that may raise returns
  \<open>py_exception + 'a\<close>, with \<open>Inl\<close> for the exception.  \<open>OperationalError\<close> and
  \<open>IntegrityError\<close> are those of the module \<open>sqlite3\<close>.
\<close>

datatype py_exception =
    ValueError string
  | OSError string
  | OverflowError string
  | PermissionError string
  | RuntimeError string
  | OperationalError string
  | IntegrityError string
  | ZeroDivisionError string

text \<open>
  A \<open>datetime\<close> in UTC is the number of microseconds since 1970-01-01T00:00:00Z
  (the resolution of Python's \<open>datetime\<close>).
\<close>

type_synonym datetime = int


section \<open>Data model (\<open>models.py\<close>)\<close>

text \<open>
  The dataclass \<open>HistoryEntry\<close>.  The field \<open>id\<close> is \<open>entry_id\<close> and the field \<open>notes\<close> is
  \<open>user_notes\<close> here.
\<close>

record HistoryEntry =
  entry_id :: int
  url :: string
  title :: "string option"
  visit_time :: datetime
  visit_count :: int
  browser :: string
  typed_count :: int
  last_visit_time :: "datetime option"
  hidden :: bool
  favicon_id :: "int option"
  domain :: string
  url_params :: "(string \<times> string list) list"
  source_file :: string
  source_file_hash :: string
  is_deleted :: bool
  user_notes :: string
  bookmarked :: bool
  tags :: "string list"

text \<open>
  The constructor with its defaults, and \<open>__post_init__\<close>.  \<open>urlparse\<close> stands for the
  standard library: it gives the \<open>netloc\<close> of a URL and its parsed query string.
\<close>

definition HistoryEntry_init ::
  "(string \<Rightarrow> string \<times> (string \<times> string list) list) \<Rightarrow> int \<Rightarrow> string \<Rightarrow> string option
     \<Rightarrow> datetime \<Rightarrow> int \<Rightarrow> string \<Rightarrow> HistoryEntry" where
  "HistoryEntry_init urlparse i u t vt vc b =
     \<lparr>entry_id = i, url = u, title = t, visit_time = vt, visit_count = vc, browser = b,
      typed_count = 0, last_visit_time = None, hidden = False, favicon_id = None,
      domain = (if u \<noteq> [] then fst (urlparse u) else []),
      url_params = (if u \<noteq> [] then snd (urlparse u) else []),
      source_file = [], source_file_hash = [], is_deleted = False, user_notes = [],
      bookmarked = False, tags = []\<rparr>"


section \<open>Search engine (\<open>search.py\<close>)\<close>

subsection \<open>Regex safety gate\<close>

definition MAX_REGEX_LENGTH :: nat where
  "MAX_REGEX_LENGTH = 500"

definition complexity_score :: "string \<Rightarrow> nat" where
  "complexity_score pattern =
     count_list pattern (CHR ''('') + count_list pattern (CHR ''*'')
     + count_list pattern (CHR ''+'') + count_list pattern (CHR ''|'')"

definition validate_regex_pattern :: "string \<Rightarrow> bool" where
  "validate_regex_pattern pattern =
     (if length pattern > MAX_REGEX_LENGTH then False
      else if complexity_score pattern > 50 then False
      else True)"

text \<open>
  The regular-expression library \<open>re\<close> is not part of the repository.  It is a parameter:
  \<open>re_compile pattern ignorecase\<close> is \<open>None\<close> where \<open>re.compile\<close> raises, and
  \<open>re_search compiled text\<close> says whether \<open>compiled.search(text)\<close> finds a match.
\<close>

record 'r re_module =
  re_compile :: "string \<Rightarrow> bool \<Rightarrow> 'r option"
  re_search :: "'r \<Rightarrow> string \<Rightarrow> bool"

definition safe_regex_compile :: "'r re_module \<Rightarrow> string \<Rightarrow> bool \<Rightarrow> 'r option" where
  "safe_regex_compile re pattern ignorecase =
     (if \<not> validate_regex_pattern pattern then None
      else re_compile re pattern ignorecase)"

definition MAX_TEXT_LENGTH :: nat where
  "MAX_TEXT_LENGTH = 1000000"

definition safe_regex_search :: "'r re_module \<Rightarrow> 'r \<Rightarrow> string \<Rightarrow> bool" where
  "safe_regex_search re pattern text =
     (let text = (if length text > MAX_TEXT_LENGTH then take MAX_TEXT_LENGTH text else text)
      in re_search re pattern text)"

subsection \<open>Filters\<close>

text \<open>
  \<open>SearchFilter.filters\<close> is a list of closures.  Each \<open>add_..._filter\<close> method builds one
  closure from its arguments; the closure is represented by a constructor holding the
  captured arguments, and \<open>filter_func\<close> is the body the closure runs on an entry.
\<close>

datatype filter_closure =
    KeywordFilter string bool bool
  | UrlFilter string bool
  | DomainFilter "string list"
  | DateRangeFilter "datetime option" "datetime option"
  | VisitCountFilter "int option" "int option"
  | BrowserFilter "string list"
  | BookmarkedFilter bool
  | CustomFilter "HistoryEntry \<Rightarrow> bool"

fun filter_func :: "'r re_module \<Rightarrow> filter_closure \<Rightarrow> HistoryEntry \<Rightarrow> bool" where
  "filter_func re (KeywordFilter keyword case_sensitive use_regex) entry =
     (let searchable_fields = [url entry, str_opt (title entry), domain entry, user_notes entry];
          search_text = join '' '' searchable_fields
      in if use_regex then
           (case safe_regex_compile re keyword (\<not> case_sensitive) of
              None \<Rightarrow> False
            | Some pattern \<Rightarrow> safe_regex_search re pattern search_text)
         else if \<not> case_sensitive then sublist (lower keyword) (lower search_text)
         else sublist keyword search_text)"
| "filter_func re (UrlFilter url_pattern use_regex) entry =
     (if use_regex then
        (case safe_regex_compile re url_pattern True of
           None \<Rightarrow> False
         | Some pattern \<Rightarrow> safe_regex_search re pattern (url entry))
      else sublist (lower url_pattern) (lower (url entry)))"
| "filter_func re (DomainFilter domains) entry = (domain entry \<in> set domains)"
| "filter_func re (DateRangeFilter start_date end_date) entry =
     (if (case start_date of None \<Rightarrow> False | Some s \<Rightarrow> visit_time entry < s) then False
      else if (case end_date of None \<Rightarrow> False | Some e \<Rightarrow> visit_time entry > e) then False
      else True)"
| "filter_func re (VisitCountFilter min_count max_count) entry =
     (if (case min_count of None \<Rightarrow> False | Some m \<Rightarrow> m \<noteq> 0 \<and> visit_count entry < m) then False
      else if (case max_count of None \<Rightarrow> False | Some m \<Rightarrow> m \<noteq> 0 \<and> visit_count entry > m)
      then False
      else True)"
| "filter_func re (BrowserFilter browsers) entry = (browser entry \<in> set browsers)"
| "filter_func re (BookmarkedFilter b) entry = (bookmarked entry = b)"
| "filter_func re (CustomFilter f) entry = f entry"

record SearchFilter =
  filters :: "filter_closure list"

definition SearchFilter_init :: SearchFilter where
  "SearchFilter_init = \<lparr>filters = []\<rparr>"

definition add_keyword_filter :: "SearchFilter \<Rightarrow> string \<Rightarrow> bool \<Rightarrow> bool \<Rightarrow> SearchFilter" where
  "add_keyword_filter self keyword case_sensitive use_regex =
     self\<lparr>filters := filters self @ [KeywordFilter keyword case_sensitive use_regex]\<rparr>"

definition add_url_filter :: "SearchFilter \<Rightarrow> string \<Rightarrow> bool \<Rightarrow> SearchFilter" where
  "add_url_filter self url_pattern use_regex =
     self\<lparr>filters := filters self @ [UrlFilter url_pattern use_regex]\<rparr>"

definition add_custom_filter :: "SearchFilter \<Rightarrow> (HistoryEntry \<Rightarrow> bool) \<Rightarrow> SearchFilter" where
  "add_custom_filter self f = self\<lparr>filters := filters self @ [CustomFilter f]\<rparr>"

text \<open>
  \<open>SearchFilter.apply\<close> (named \<open>SearchFilter_apply\<close> here) and its loop: one list
  comprehension per filter, in the order added.
\<close>

fun apply_loop :: "'r re_module \<Rightarrow> filter_closure list \<Rightarrow> HistoryEntry list \<Rightarrow> HistoryEntry list"
  where
  "apply_loop re [] filtered = filtered"
| "apply_loop re (f # fs) filtered = apply_loop re fs (filter (filter_func re f) filtered)"

definition SearchFilter_apply :: "'r re_module \<Rightarrow> SearchFilter \<Rightarrow> HistoryEntry list \<Rightarrow> HistoryEntry list"
  where
  "SearchFilter_apply re self entries =
     (if filters self = [] then entries else apply_loop re (filters self) entries)"

subsection \<open>Query parser\<close>

text \<open>
  The state of the loop of \<open>_tokenize\<close>: the tokens so far, the current token, and the two
  flags.
\<close>

record tokenizer_state =
  tokens :: "string list"
  current_token :: string
  in_quotes :: bool
  in_regex :: bool

definition tokenize_char :: "tokenizer_state \<Rightarrow> char \<Rightarrow> tokenizer_state" where
  "tokenize_char st c =
     (if c = CHR 0x22 \<and> \<not> in_regex st then
        st\<lparr>in_quotes := \<not> in_quotes st, current_token := current_token st @ [c]\<rparr>
      else if c = CHR ''/'' \<and> \<not> in_quotes st then
        st\<lparr>in_regex := \<not> in_regex st, current_token := current_token st @ [c]\<rparr>
      else if isspace c \<and> \<not> in_quotes st \<and> \<not> in_regex st then
        (if current_token st \<noteq> [] then
           st\<lparr>tokens := tokens st @ [current_token st], current_token := []\<rparr>
         else st)
      else st\<lparr>current_token := current_token st @ [c]\<rparr>)"

definition tokenize :: "string \<Rightarrow> string list" where
  "tokenize query =
     (let st = foldl tokenize_char
                 \<lparr>tokens = [], current_token = [], in_quotes = False, in_regex = False\<rparr> query
      in if current_token st \<noteq> [] then tokens st @ [current_token st] else tokens st)"

text \<open>\<open>token[1:-1]\<close>.\<close>

definition inner :: "string \<Rightarrow> string" where
  "inner token = butlast (tl token)"

definition operators :: "string list" where
  "operators = [''AND'', ''OR'', ''NOT'']"

text \<open>One round of the loop over the tokens in \<open>parse_query\<close>.\<close>

definition parse_token :: "SearchFilter \<Rightarrow> string \<Rightarrow> SearchFilter" where
  "parse_token search_filter token0 =
     (let token = strip token0
      in if startswith token ''/'' \<and> endswith token ''/'' then
           add_keyword_filter search_filter (inner token) False True
         else if startswith token [CHR 0x22] \<and> endswith token [CHR 0x22] then
           add_keyword_filter search_filter (inner token) True False
         else if token \<noteq> [] \<and> token \<notin> set operators then
           add_keyword_filter search_filter token False False
         else search_filter)"

definition parse_query :: "string \<Rightarrow> SearchFilter" where
  "parse_query query =
     (let search_filter = SearchFilter_init
      in if strip query = [] then search_filter
         else foldl parse_token search_filter (tokenize query))"

section \<open>Python numbers\<close>

text \<open>
  A Python float is an IEEE 754 double.  A finite double is modelled by the rational number
  it stands for, and an operation on floats by the exact operation followed by
  \<open>round_to_double\<close>: rounding to the nearest number with a 53-bit significand, ties to the
  even significand.  The exponent range is left out of \<open>round_to_double\<close>: overflow is
  written out where an operation can reach it (\<open>int_truediv\<close>), and no operation below has
  a nonzero result under \<open>2^-1022\<close> in magnitude.
\<close>

definition round_half_even :: "rat \<Rightarrow> int" where
  "round_half_even x =
     (let f = \<lfloor>x\<rfloor>; d = x - of_int f
      in if d < 1 / 2 then f
         else if d > 1 / 2 then f + 1
         else if even f then f else f + 1)"

text \<open>The exponent \<open>e\<close> with \<open>2^e \<le> \<bar>x\<bar> < 2^(e + 1)\<close>, for \<open>x\<close> other than 0.\<close>

definition float_exponent :: "rat \<Rightarrow> int" where
  "float_exponent x =
     (let a = \<bar>x\<bar>
      in if 1 \<le> a then bitlen \<lfloor>a\<rfloor> - 1
         else (let k = bitlen \<lfloor>1 / a\<rfloor> - 1
               in if a * 2 ^ nat k = 1 then - k else - k - 1))"

definition round_to_double :: "rat \<Rightarrow> rat" where
  "round_to_double x =
     (if x = 0 then 0
      else let q = 2 powi (float_exponent x - 52)
           in of_int (round_half_even (x / q)) * q)"

text \<open>A Python number: an int (unbounded) or a float.\<close>

datatype py_number = PyInt int | PyFloat rat

text \<open>\<open>n == 0\<close> on a Python number.\<close>

fun is_zero :: "py_number \<Rightarrow> bool" where
  "is_zero (PyInt n) = (n = 0)"
| "is_zero (PyFloat x) = (x = 0)"

text \<open>
  \<open>a / b\<close> on two Python ints.  The result is the float nearest the exact quotient;
  CPython raises OverflowError when that is beyond the largest finite double, that is
  when the quotient has magnitude \<open>2^1024 - 2^970\<close> or more.
\<close>

definition int_truediv :: "int \<Rightarrow> int \<Rightarrow> py_exception + rat" where
  "int_truediv a b =
     (if b = 0 then Inl (ZeroDivisionError ''division by zero'')
      else let q = (of_int a / of_int b :: rat)
           in if \<bar>q\<bar> \<ge> 2 ^ 1024 - 2 ^ 970
              then Inl (OverflowError ''integer division result too large for a float'')
              else Inr (round_to_double q))"

text \<open>
  \<open>x - n\<close> and \<open>x / n\<close> on a float \<open>x\<close> and an int \<open>n\<close> that converts to a float exactly
  (magnitude at most \<open>2^53\<close>; the code uses them with 11644473600 and 60 only).
\<close>

definition float_sub_int :: "rat \<Rightarrow> int \<Rightarrow> rat" where
  "float_sub_int x n = round_to_double (x - of_int n)"

definition float_div_int :: "rat \<Rightarrow> int \<Rightarrow> rat" where
  "float_div_int x n = round_to_double (x / of_int n)"


section \<open>Timestamp conversion (\<open>timezone_utils.py\<close>)\<close>

text \<open>
  The standard library is modelled as CPython 3.11 (the version \<open>setup.py\<close> requires) runs
  it on 64-bit Linux, where \<open>time_t\<close> has 64 bits.

  \<open>datetime.fromtimestamp(ts, tz=timezone.utc)\<close> first splits the timestamp into whole
  seconds and microseconds (\<open>_PyTime_ObjectToTimeval\<close> with half-to-even rounding):

    \<^item> an int is taken as the seconds, with OverflowError when it does not fit \<open>time_t\<close>;

    \<^item> a float \<open>d\<close> is split by \<open>modf\<close> into its integral part (modf_intpartd towards zero) and
      its fraction; the fraction is multiplied by \<open>1e6\<close> (a float product) and rounded half
      to even; a result of \<open>1e6\<close> carries into the seconds and a negative one borrows from
      them; OverflowError unless \<open>(double) PY_TIME_T_MIN <= intpart\<close> and
      \<open>intpart < - (double) PY_TIME_T_MIN\<close>, that is \<open>- 2^63 \<le> intpart < 2^63\<close>.
\<close>

definition modf_intpart :: "rat \<Rightarrow> int" where
  "modf_intpart d = (if 0 \<le> d then \<lfloor>d\<rfloor> else \<lceil>d\<rceil>)"

fun object_to_timeval :: "py_number \<Rightarrow> py_exception + int \<times> int" where
  "object_to_timeval (PyInt n) =
     (if - (2 ^ 63) \<le> n \<and> n < 2 ^ 63 then Inr (n, 0)
      else Inl (OverflowError ''timestamp out of range for platform time_t''))"
| "object_to_timeval (PyFloat d) =
     (let intpart = modf_intpart d;
          floatpart = round_to_double ((d - of_int intpart) * 1000000);
          rounded = round_half_even floatpart;
          (sec, us) =
             (if rounded \<ge> 1000000 then (intpart + 1, rounded - 1000000)
              else if rounded < 0 then (intpart - 1, rounded + 1000000)
              else (intpart, rounded))
      in if - (2 ^ 63) \<le> sec \<and> sec < 2 ^ 63 then Inr (sec, us)
         else Inl (OverflowError ''timestamp out of range for platform time_t''))"

text \<open>
  Then the seconds are broken down by \<open>gmtime\<close> and the datetime is built: ValueError when
  the year is outside 1..9999.  (Where the C library cannot break the seconds down at all,
  far outside that range, CPython reports OSError instead; the model has
  ValueError for both, and every caller here handles the two by the same clause.)  A
  datetime in UTC is modelled by its distance from the epoch in microseconds.
\<close>

definition MIN_DATETIME_SECONDS :: int where
  "MIN_DATETIME_SECONDS = - 62135596800"

definition MAX_DATETIME_SECONDS :: int where
  "MAX_DATETIME_SECONDS = 253402300800"

definition fromtimestamp :: "py_number \<Rightarrow> py_exception + datetime" where
  "fromtimestamp ts =
     (case object_to_timeval ts of
        Inl e \<Rightarrow> Inl e
      | Inr (timet, us) \<Rightarrow>
          if timet < MIN_DATETIME_SECONDS \<or> MAX_DATETIME_SECONDS \<le> timet
          then Inl (ValueError ''year is out of range'')
          else Inr (timet * 1000000 + us))"

text \<open>
  \<open>try: body except (ValueError, OSError): return datetime.fromtimestamp(0, tz=utc)\<close>.
  Any other exception propagates.
\<close>

definition except_ValueError_OSError ::
  "py_exception + datetime \<Rightarrow> py_exception + datetime" where
  "except_ValueError_OSError body =
     (case body of
        Inl (ValueError m) \<Rightarrow> fromtimestamp (PyInt 0)
      | Inl (OSError m) \<Rightarrow> fromtimestamp (PyInt 0)
      | other \<Rightarrow> other)"

definition EPOCH_DIFF :: int where
  "EPOCH_DIFF = 11644473600"

definition chrome_timestamp_to_datetime :: "int \<Rightarrow> py_exception + datetime" where
  "chrome_timestamp_to_datetime chrome_timestamp =
     (if chrome_timestamp = 0 then fromtimestamp (PyInt 0)
      else except_ValueError_OSError
             (case int_truediv chrome_timestamp 1000000 of
                Inl e \<Rightarrow> Inl e
              | Inr q \<Rightarrow>
                  (let timestamp_seconds = float_sub_int q EPOCH_DIFF
                   in fromtimestamp (PyFloat timestamp_seconds))))"

definition firefox_timestamp_to_datetime :: "int \<Rightarrow> py_exception + datetime" where
  "firefox_timestamp_to_datetime firefox_timestamp =
     (if firefox_timestamp = 0 then fromtimestamp (PyInt 0)
      else except_ValueError_OSError
             (case int_truediv firefox_timestamp 1000000 of
                Inl e \<Rightarrow> Inl e
              | Inr timestamp_seconds \<Rightarrow> fromtimestamp (PyFloat timestamp_seconds)))"

text \<open>
  The argument is a Python number: the annotation says \<open>int\<close>, and the function runs the
  same on a float.
\<close>

definition unix_timestamp_to_datetime :: "py_number \<Rightarrow> py_exception + datetime" where
  "unix_timestamp_to_datetime unix_timestamp =
     (if is_zero unix_timestamp then fromtimestamp (PyInt 0)
      else except_ValueError_OSError (fromtimestamp unix_timestamp))"

text \<open>The Unix epoch sentinel, 1970-01-01T00:00:00Z.\<close>

definition unix_epoch :: datetime where
  "unix_epoch = 0"


section \<open>Session segmentation (\<open>analytics.py\<close>)\<close>

text \<open>
  \<open>delta.total_seconds()\<close> for the difference of two datetimes, here in microseconds: the
  float nearest to the microseconds divided by \<open>10^6\<close>.
\<close>

definition total_seconds :: "int \<Rightarrow> rat" where
  "total_seconds delta = round_to_double (of_int delta / 1000000)"

text \<open>\<open>(b - a).total_seconds() / 60\<close> for two datetimes, a float.\<close>

definition minutes_between :: "datetime \<Rightarrow> datetime \<Rightarrow> rat" where
  "minutes_between a b = float_div_int (total_seconds (b - a)) 60"

text \<open>
  \<open>round(x, 2)\<close> on a float: the float nearest to the decimal with two places that is
  nearest to \<open>x\<close>, half to even.
\<close>

definition round2 :: "rat \<Rightarrow> rat" where
  "round2 x = round_to_double (of_int (round_half_even (x * 100)) / 100)"

text \<open>
  A session is a dict.  The loop fills the keys \<open>start\<close>, \<open>end\<close>, \<open>entries\<close> and
  \<open>domains\<close>; the last pass adds \<open>duration_minutes\<close>, \<open>entry_count\<close> and
  \<open>unique_domains\<close>.  The set of domains is kept as a list without duplicates (the order in
  which Python lists a set is not modelled).
\<close>

record session_dict =
  session_start :: datetime
  session_end :: datetime
  session_entries :: "HistoryEntry list"
  session_domains :: "string list"

record session = session_dict +
  duration_minutes :: rat
  entry_count :: nat
  unique_domains :: nat

definition new_session :: "HistoryEntry \<Rightarrow> session_dict" where
  "new_session entry =
     \<lparr>session_start = visit_time entry, session_end = visit_time entry,
      session_entries = [entry], session_domains = [domain entry]\<rparr>"

text \<open>
  The loop \<open>for i in range(1, len(sorted_entries))\<close>: \<open>prev_entry\<close> is
  \<open>sorted_entries[i - 1]\<close>, the list argument holds \<open>sorted_entries[i:]\<close>.  After the loop
  the last session is appended.
\<close>

fun session_loop ::
  "int \<Rightarrow> HistoryEntry \<Rightarrow> HistoryEntry list \<Rightarrow> session_dict \<Rightarrow> session_dict list
     \<Rightarrow> session_dict list" where
  "session_loop session_gap_minutes prev_entry [] current_session sessions =
     sessions @ [current_session]"
| "session_loop session_gap_minutes prev_entry (entry # rest) current_session sessions =
     (let time_gap = minutes_between (visit_time prev_entry) (visit_time entry)
      in if time_gap \<le> of_int session_gap_minutes then
           session_loop session_gap_minutes entry rest
             (current_session
                \<lparr>session_end := visit_time entry,
                 session_entries := session_entries current_session @ [entry],
                 session_domains := List.insert (domain entry) (session_domains current_session)\<rparr>)
             sessions
         else
           session_loop session_gap_minutes entry rest (new_session entry)
             (sessions @ [current_session]))"

definition finish_session :: "session_dict \<Rightarrow> session" where
  "finish_session s =
     (let duration = minutes_between (session_start s) (session_end s)
      in session_dict.extend s
           \<lparr>duration_minutes = round2 duration,
            entry_count = length (session_entries s),
            unique_domains = length (session_domains s)\<rparr>)"

definition calculate_session_duration :: "HistoryEntry list \<Rightarrow> int \<Rightarrow> session list" where
  "calculate_session_duration entries session_gap_minutes =
     (if entries = [] then []
      else case sort_key visit_time entries of
             [] \<Rightarrow> []
           | first # rest \<Rightarrow>
               map finish_session
                 (session_loop session_gap_minutes first rest (new_session first) []))"

section \<open>Generic introspection (\<open>generic_parser.py\<close>)\<close>

subsection \<open>The SQLite connection\<close>

text \<open>\<open>str(n)\<close> for an int, as an f-string interpolates it.\<close>

function str_nat :: "nat \<Rightarrow> string" where
  "str_nat n =
     (if n < 10 then [char_of (48 + n)]
      else str_nat (n div 10) @ [char_of (48 + n mod 10)])"
  by pat_completeness auto
termination
  by (relation "measure (\<lambda>n. n)") auto

definition str_int :: "int \<Rightarrow> string" where
  "str_int i = (if i < 0 then ''-'' @ str_nat (nat (- i)) else str_nat (nat i))"

datatype sql_value =
    SQLNull
  | SQLInteger int
  | SQLFloat rat
  | SQLText string
  | SQLBlob "nat list"

text \<open>One row of \<open>PRAGMA table_info\<close>, and the dict \<open>get_table_info\<close> makes of it.\<close>

record column_info =
  cid :: int
  col_name :: string
  col_type :: string
  notnull :: int
  dflt_value :: sql_value
  pk :: int

record sql_table =
  tbl_name :: string
  tbl_columns :: "column_info list"
  tbl_rows :: "sql_value list list"

text \<open>
  The connection reads the private copy of the database, with nothing attached and no
  temporary table.  The engine is not part of the repository.  Its answer is modelled for
  the statements of the parser whose interpolated names are plain identifiers naming a
  table of the database and its columns; for any other statement text the answer is the
  engine's own, a parameter of the connection:

    \<^item> \<open>snapshot\<close> holds the tables that \<open>sqlite_master\<close> lists with \<open>type='table'\<close>, each
      with its rows in the order a \<open>SELECT\<close> without \<open>ORDER BY\<close> returns them, one value
      per column;

    \<^item> \<open>is_keyword\<close> tells the words the engine's tokenizer does not read as a name;

    \<^item> \<open>sql_like\<close> is the engine's \<open>LIKE\<close> operator on a value and a bound parameter;

    \<^item> \<open>other_table_info\<close>, \<open>other_select\<close> and \<open>other_count\<close> are the engine's answers to
      a \<open>PRAGMA table_info\<close>, a \<open>SELECT *\<close> and a \<open>SELECT COUNT(*)\<close> whose text the
      model does not interpret (a syntax error, for one);

    \<^item> \<open>executed\<close> records every call of \<open>cursor.execute\<close>: the SQL text and the bound
      parameters, in order.
\<close>

record sqlite_connection =
  snapshot :: "sql_table list"
  is_keyword :: "string \<Rightarrow> bool"
  sql_like :: "sql_value \<Rightarrow> sql_value \<Rightarrow> bool"
  other_table_info :: "string \<Rightarrow> py_exception + column_info list"
  other_select :: "string \<Rightarrow> sql_value list \<Rightarrow> py_exception + sql_value list list"
  other_count :: "string \<Rightarrow> py_exception + int"
  executed :: "(string \<times> sql_value list) list"

definition cursor_execute ::
  "sqlite_connection \<Rightarrow> string \<Rightarrow> sql_value list \<Rightarrow> sqlite_connection" where
  "cursor_execute conn sql params = conn\<lparr>executed := executed conn @ [(sql, params)]\<rparr>"

text \<open>
  A name interpolated without quotes is read as one identifier when it starts with an
  ASCII letter or \<open>_\<close>, goes on with ASCII letters, digits and \<open>_\<close>, and is no keyword.
  (The engine accepts a little more, \<open>$\<close> and bytes above 127; such names are left to the
  uninterpreted answers.)
\<close>

definition is_ascii_letter :: "char \<Rightarrow> bool" where
  "is_ascii_letter c =
     (let n = (of_char c :: nat) in (65 \<le> n \<and> n \<le> 90) \<or> (97 \<le> n \<and> n \<le> 122))"

definition is_ascii_digit :: "char \<Rightarrow> bool" where
  "is_ascii_digit c = (let n = (of_char c :: nat) in 48 \<le> n \<and> n \<le> 57)"

definition plain_name :: "string \<Rightarrow> bool" where
  "plain_name s =
     (case s of
        [] \<Rightarrow> False
      | c # cs \<Rightarrow>
          (is_ascii_letter c \<or> c = CHR ''_'')
          \<and> list_all (\<lambda>c. is_ascii_letter c \<or> is_ascii_digit c \<or> c = CHR ''_'') cs)"

definition is_identifier :: "sqlite_connection \<Rightarrow> string \<Rightarrow> bool" where
  "is_identifier conn s = (plain_name s \<and> \<not> is_keyword conn s)"

text \<open>The engine compares names without regard to the case of ASCII letters.\<close>

definition ascii_lower :: "string \<Rightarrow> string" where
  "ascii_lower s =
     map (\<lambda>c. let n = (of_char c :: nat) in if 65 \<le> n \<and> n \<le> 90 then char_of (n + 32) else c) s"

definition find_table :: "sql_table list \<Rightarrow> string \<Rightarrow> sql_table option" where
  "find_table db table_name =
     find (\<lambda>t. ascii_lower (tbl_name t) = ascii_lower table_name) db"

definition column_names :: "sql_table \<Rightarrow> string list" where
  "column_names t = map (\<lambda>ci. ascii_lower (col_name ci)) (tbl_columns t)"

definition has_column :: "sql_table \<Rightarrow> string \<Rightarrow> bool" where
  "has_column t c = (ascii_lower c \<in> set (column_names t))"

text \<open>\<open>name LIKE 'sqlite_%'\<close>: \<open>_\<close> matches one character, letters match in either case.\<close>

definition like_sqlite_prefix :: "string \<Rightarrow> bool" where
  "like_sqlite_prefix n = (length n \<ge> 7 \<and> lower (take 6 n) = ''sqlite'')"

definition engine_table_names :: "sql_table list \<Rightarrow> string list" where
  "engine_table_names db = sort (filter (\<lambda>n. \<not> like_sqlite_prefix n) (map tbl_name db))"

text \<open>\<open>PRAGMA table_info(name)\<close>.\<close>

definition engine_table_info ::
  "sqlite_connection \<Rightarrow> string \<Rightarrow> string \<Rightarrow> py_exception + column_info list" where
  "engine_table_info conn sql table_name =
     (if is_identifier conn table_name then
        (case find_table (snapshot conn) table_name of
           None \<Rightarrow> other_table_info conn sql
         | Some t \<Rightarrow> Inr (tbl_columns t))
      else other_table_info conn sql)"

text \<open>
  \<open>SELECT * FROM name\<close>, with \<open>LIMIT l OFFSET off\<close> when the two numbers are given.  A
  number outside 64 bits is no integer to the engine, which then fails with \<open>datatype
  mismatch\<close> (sqlite3.IntegrityError); a negative \<open>LIMIT\<close> is no limit, a negative \<open>OFFSET\<close>
  is 0.
\<close>

definition sqlite_int64 :: "int \<Rightarrow> bool" where
  "sqlite_int64 n = (- (2 ^ 63) \<le> n \<and> n < 2 ^ 63)"

definition engine_select_all ::
  "sqlite_connection \<Rightarrow> string \<Rightarrow> string \<Rightarrow> (int \<times> int) option
     \<Rightarrow> py_exception + sql_value list list" where
  "engine_select_all conn sql table_name limit_offset =
     (if is_identifier conn table_name then
        (case find_table (snapshot conn) table_name of
           None \<Rightarrow> other_select conn sql []
         | Some t \<Rightarrow>
             (case limit_offset of
                None \<Rightarrow> Inr (tbl_rows t)
              | Some (l, off) \<Rightarrow>
                  if \<not> sqlite_int64 l \<or> \<not> sqlite_int64 off
                  then Inl (IntegrityError ''datatype mismatch'')
                  else (let skipped = drop (nat off) (tbl_rows t)
                        in Inr (if l < 0 then skipped else take (nat l) skipped))))
      else other_select conn sql [])"

text \<open>\<open>SELECT COUNT(*) FROM name\<close>, and the \<open>[0]\<close> of its one row.\<close>

definition engine_select_count ::
  "sqlite_connection \<Rightarrow> string \<Rightarrow> string \<Rightarrow> py_exception + int" where
  "engine_select_count conn sql table_name =
     (if is_identifier conn table_name then
        (case find_table (snapshot conn) table_name of
           None \<Rightarrow> other_count conn sql
         | Some t \<Rightarrow> Inr (int (length (tbl_rows t))))
      else other_count conn sql)"

text \<open>
  \<open>SELECT * FROM name WHERE c1 LIKE ? OR c2 LIKE ? ...\<close>, interpreted when the name is a
  table and every \<open>c\<close> is an identifier naming one of its columns.
\<close>

definition engine_select_like ::
  "sqlite_connection \<Rightarrow> string \<Rightarrow> string \<Rightarrow> string list \<Rightarrow> sql_value list
     \<Rightarrow> py_exception + sql_value list list" where
  "engine_select_like conn sql table_name cols params =
     (if is_identifier conn table_name \<and> cols \<noteq> [] \<and> list_all (is_identifier conn) cols then
        (case find_table (snapshot conn) table_name of
           None \<Rightarrow> other_select conn sql params
         | Some t \<Rightarrow>
             if list_all (has_column t) cols
             then Inr (filter
                         (\<lambda>row. list_ex
                            (\<lambda>(c, prm).
                               case map_of (zip (column_names t) row) (ascii_lower c) of
                                 None \<Rightarrow> False
                               | Some v \<Rightarrow> sql_like conn v prm)
                            (zip cols params))
                         (tbl_rows t))
             else other_select conn sql params)
      else other_select conn sql params)"

subsection \<open>The parser\<close>

text \<open>
  The parser object.  Its connection is taken as open on the private copy: \<open>connect()\<close>
  returns it without a statement of its own.
\<close>

record GenericSQLiteParser =
  g_db_path :: string
  valid_tables :: "string list option"
  g_file_hash :: string
  browser_type :: string
  conn :: sqlite_connection

text \<open>The text of the query of \<open>get_tables\<close> (its line breaks written as blanks).\<close>

definition TABLES_QUERY :: string where
  "TABLES_QUERY =
     ''SELECT name FROM sqlite_master WHERE type='' @ [CHR 0x27] @ ''table'' @ [CHR 0x27]
     @ '' AND name NOT LIKE '' @ [CHR 0x27] @ ''sqlite_%'' @ [CHR 0x27] @ '' ORDER BY name''"

definition get_tables :: "GenericSQLiteParser \<Rightarrow> string list \<times> GenericSQLiteParser" where
  "get_tables self =
     (let c = cursor_execute (conn self) TABLES_QUERY [];
          tables = engine_table_names (snapshot c)
      in (tables, self\<lparr>conn := c, valid_tables := Some tables\<rparr>))"

definition validate_table_name ::
  "GenericSQLiteParser \<Rightarrow> string \<Rightarrow> bool \<times> GenericSQLiteParser" where
  "validate_table_name self table_name =
     (case valid_tables self of
        None \<Rightarrow> (let (tables, self') = get_tables self in (table_name \<in> set tables, self'))
      | Some tables \<Rightarrow> (table_name \<in> set tables, self))"

definition get_table_info ::
  "GenericSQLiteParser \<Rightarrow> string \<Rightarrow> (py_exception + column_info list) \<times> GenericSQLiteParser"
  where
  "get_table_info self table_name =
     (let (ok, self) = validate_table_name self table_name
      in if \<not> ok then (Inl (ValueError (''Invalid table name: '' @ table_name)), self)
         else
           (let query = ''PRAGMA table_info('' @ table_name @ '')'';
                c = cursor_execute (conn self) query []
            in (engine_table_info c query table_name, self\<lparr>conn := c\<rparr>)))"

definition get_column_names ::
  "GenericSQLiteParser \<Rightarrow> string \<Rightarrow> (py_exception + string list) \<times> GenericSQLiteParser"
  where
  "get_column_names self table_name =
     (case get_table_info self table_name of
        (Inl e, self) \<Rightarrow> (Inl e, self)
      | (Inr columns_info, self) \<Rightarrow> (Inr (map col_name columns_info), self))"

text \<open>
  A row as a dict from column name to value, in the order of the columns.  A value of type
  \<open>bytes\<close> is replaced by text: \<open>decode\<close> stands for \<open>value.decode('utf-8')\<close> and, where that
  raises, \<open>str(value)\<close>.
\<close>

definition py_value :: "(nat list \<Rightarrow> string) \<Rightarrow> sql_value \<Rightarrow> sql_value" where
  "py_value decode v = (case v of SQLBlob b \<Rightarrow> SQLText (decode b) | _ \<Rightarrow> v)"

definition row_dict ::
  "(nat list \<Rightarrow> string) \<Rightarrow> string list \<Rightarrow> sql_value list \<Rightarrow> (string \<times> sql_value) list" where
  "row_dict decode columns row =
     fold (\<lambda>(col, v) d. AList.update col (py_value decode v) d) (zip columns row) []"

definition get_table_data ::
  "(nat list \<Rightarrow> string) \<Rightarrow> GenericSQLiteParser \<Rightarrow> string \<Rightarrow> int option \<Rightarrow> int
     \<Rightarrow> (py_exception + string list \<times> (string \<times> sql_value) list list) \<times> GenericSQLiteParser"
  where
  "get_table_data decode self table_name limit offset =
     (let (ok, self) = validate_table_name self table_name
      in if \<not> ok then (Inl (ValueError (''Invalid table name: '' @ table_name)), self)
         else
           (case get_column_names self table_name of
              (Inl e, self) \<Rightarrow> (Inl e, self)
            | (Inr columns, self) \<Rightarrow>
                (let query = ''SELECT * FROM '' @ table_name;
                     clause = (case limit of
                                 None \<Rightarrow> None
                               | Some l \<Rightarrow> if l = 0 then None else Some (max 0 l, max 0 offset));
                     query = (case clause of
                                None \<Rightarrow> query
                              | Some (l, off) \<Rightarrow>
                                  query @ '' LIMIT '' @ str_int l @ '' OFFSET '' @ str_int off);
                     c = cursor_execute (conn self) query [];
                     self = self\<lparr>conn := c\<rparr>
                 in case engine_select_all c query table_name clause of
                      Inl e \<Rightarrow> (Inl e, self)
                    | Inr fetched \<Rightarrow>
                        (Inr (columns, map (row_dict decode columns) fetched), self))))"

definition get_row_count ::
  "GenericSQLiteParser \<Rightarrow> string \<Rightarrow> (py_exception + int) \<times> GenericSQLiteParser" where
  "get_row_count self table_name =
     (let (ok, self) = validate_table_name self table_name
      in if \<not> ok then (Inl (ValueError (''Invalid table name: '' @ table_name)), self)
         else
           (let query = ''SELECT COUNT(*) FROM '' @ table_name;
                c = cursor_execute (conn self) query [];
                self = self\<lparr>conn := c\<rparr>
            in (engine_select_count c query table_name, self)))"

definition search_table ::
  "(nat list \<Rightarrow> string) \<Rightarrow> GenericSQLiteParser \<Rightarrow> string \<Rightarrow> string \<Rightarrow> string list option
     \<Rightarrow> (py_exception + (string \<times> sql_value) list list) \<times> GenericSQLiteParser" where
  "search_table decode self table_name search_term columns =
     (case (case columns of
              None \<Rightarrow> get_column_names self table_name
            | Some cols \<Rightarrow> (Inr cols, self)) of
        (Inl e, self) \<Rightarrow> (Inl e, self)
      | (Inr columns, self) \<Rightarrow>
          (let where_conditions = map (\<lambda>col. col @ '' LIKE ?'') columns;
               where_clause = join '' OR '' where_conditions;
               query = ''SELECT * FROM '' @ table_name @ '' WHERE '' @ where_clause;
               params = map (\<lambda>_. SQLText (''%'' @ search_term @ ''%'')) columns;
               c = cursor_execute (conn self) query params;
               self = self\<lparr>conn := c\<rparr>
           in case engine_select_like c query table_name columns params of
                Inl e \<Rightarrow> (Inl e, self)
              | Inr fetched \<Rightarrow>
                  (case get_column_names self table_name of
                     (Inl e, self) \<Rightarrow> (Inl e, self)
                   | (Inr all_columns, self) \<Rightarrow>
                       (Inr (map (row_dict decode all_columns) fetched), self))))"

section \<open>Safe database access (\<open>base_parser.py\<close>, \<open>models.py\<close>, \<open>security.py\<close>)\<close>

subsection \<open>The file system\<close>

text \<open>
  The file system maps a path to what is stored there.  Two different paths are two
  different files: links are not modelled, and \<open>kind\<close> is what \<open>stat\<close> reports after
  following them.  \<open>readable\<close> says that the process may open the file for reading
  (\<open>os.access(path, R_OK)\<close>); \<open>read_error\<close> says that reading its data raises OSError
  although it opens (a failing medium, a region locked by another process).
\<close>

datatype file_kind = RegularFile | Directory | SpecialFile

record fs_node =
  kind :: file_kind
  content :: "nat list"
  mode :: nat
  readable :: bool
  read_error :: bool

type_synonym filesystem = "string \<Rightarrow> fs_node option"

text \<open>The calls that open a file or change the file system, in the order made.\<close>

datatype fs_event =
    OpenRead string
  | OpenWrite string
  | Unlink string
  | Chmod string nat
  | Mkdir string nat

record world =
  files :: filesystem
  events :: "fs_event list"

text \<open>
  What the platform and the standard library supply: \<open>Path.resolve\<close>, whether \<open>os.name\<close> is
  \<open>nt\<close>, \<open>tempfile.gettempdir()\<close> (a directory in which the process can create entries), the
  random characters \<open>NamedTemporaryFile\<close> puts between prefix and suffix, and
  \<open>hashlib.sha256(data).hexdigest()\<close>.
\<close>

record os_env =
  resolve :: "string \<Rightarrow> string"
  os_name_nt :: bool
  gettempdir :: string
  random_name :: string
  sha256_hexdigest :: "nat list \<Rightarrow> string"

definition log_event :: "fs_event \<Rightarrow> world \<Rightarrow> world" where
  "log_event e w = w\<lparr>events := events w @ [e]\<rparr>"

definition write_file :: "string \<Rightarrow> fs_node \<Rightarrow> world \<Rightarrow> world" where
  "write_file path n w = w\<lparr>files := (files w)(path \<mapsto> n)\<rparr>"

definition new_file :: "nat list \<Rightarrow> nat \<Rightarrow> fs_node" where
  "new_file bytes m =
     \<lparr>kind = RegularFile, content = bytes, mode = m, readable = True, read_error = False\<rparr>"

definition quoted :: "string \<Rightarrow> string" where
  "quoted path = [CHR 0x27] @ path @ [CHR 0x27]"

subsection \<open>\<open>calculate_file_hash\<close>\<close>

text \<open>
  The function catches every exception of opening and reading and returns a text that
  starts with \<open>ERROR: \<close>; it has no path on which it raises.
\<close>

definition calculate_file_hash ::
  "os_env \<Rightarrow> world \<Rightarrow> string \<Rightarrow> (py_exception + string) \<times> world" where
  "calculate_file_hash env w file_path =
     (let w = log_event (OpenRead file_path) w
      in case files w file_path of
           None \<Rightarrow>
             (Inr (''ERROR: [Errno 2] No such file or directory: '' @ quoted file_path), w)
         | Some n \<Rightarrow>
             if kind n = Directory then
               (Inr (''ERROR: [Errno 21] Is a directory: '' @ quoted file_path), w)
             else if \<not> readable n then
               (Inr (''ERROR: [Errno 13] Permission denied: '' @ quoted file_path), w)
             else if read_error n then
               (Inr ''ERROR: [Errno 5] Input/output error'', w)
             else (Inr (sha256_hexdigest env (content n)), w))"

subsection \<open>\<open>validate_database_path\<close>\<close>

definition dangerous_prefixes :: "string list" where
  "dangerous_prefixes = [''/etc'', ''/sys'', ''/proc'', ''/dev'', ''/boot'']"

definition MAX_DB_SIZE :: nat where
  "MAX_DB_SIZE = 10 * 1024 * 1024 * 1024"

definition allowed_extensions :: "string list" where
  "allowed_extensions = [''.db'', ''.sqlite'', ''.sqlite3'']"

definition validate_database_path :: "os_env \<Rightarrow> filesystem \<Rightarrow> string \<Rightarrow> bool" where
  "validate_database_path env fs db_path =
     (case fs db_path of
        None \<Rightarrow> False
      | Some n \<Rightarrow>
          if kind n \<noteq> RegularFile then False
          else if \<not> os_name_nt env
                  \<and> (\<exists>p \<in> set dangerous_prefixes. startswith (resolve env db_path) p)
          then False
          else if length (content n) > MAX_DB_SIZE then False
          else if \<not> (\<exists>ext \<in> set allowed_extensions. endswith (lower db_path) ext) then False
          else True)"

subsection \<open>\<open>BaseParser\<close>\<close>

text \<open>
  The parser object.  \<open>connection\<close> is \<open>_conn\<close>: the file the open read-only connection
  reads, if there is one.
\<close>

record BaseParser =
  db_path :: string
  file_hash :: string
  temp_db_path :: "string option"
  connection :: "string option"

definition is_file :: "filesystem \<Rightarrow> string \<Rightarrow> bool" where
  "is_file fs path = (case fs path of None \<Rightarrow> False | Some n \<Rightarrow> kind n = RegularFile)"

definition os_access_R_OK :: "filesystem \<Rightarrow> string \<Rightarrow> bool" where
  "os_access_R_OK fs path = (case fs path of None \<Rightarrow> False | Some n \<Rightarrow> readable n)"

definition BaseParser_init ::
  "os_env \<Rightarrow> world \<Rightarrow> string \<Rightarrow> (py_exception + BaseParser) \<times> world" where
  "BaseParser_init env w path =
     (if \<not> validate_database_path env (files w) path then
        (Inl (ValueError
           ''Invalid or unsafe database path. File must be a regular database file.''), w)
      else if \<not> is_file (files w) path then
        (Inl (ValueError ''Database path must be a regular file''), w)
      else if \<not> os_access_R_OK (files w) path then
        (Inl (PermissionError ''Database file is not readable''), w)
      else
        (case calculate_file_hash env w path of
           (Inl e, w) \<Rightarrow> (Inl (ValueError ''Failed to verify file integrity''), w)
         | (Inr h, w) \<Rightarrow>
             (Inr \<lparr>db_path = path, file_hash = h, temp_db_path = None, connection = None\<rparr>,
              w)))"

text \<open>\<open>os.path.basename\<close>.\<close>

definition basename :: "string \<Rightarrow> string" where
  "basename path = rev (takeWhile (\<lambda>c. c \<noteq> CHR ''/'') (rev path))"

text \<open>
  One round of the loop over \<open>['-wal', '-shm']\<close> in \<open>_create_temp_copy\<close>.  \<open>shutil.copy2\<close>
  opens the source for reading, then the destination for writing (inside the destination
  when that is a directory); every exception is caught and the loop goes on.
\<close>

definition copy_sidecar :: "string \<Rightarrow> string \<Rightarrow> string \<Rightarrow> world \<Rightarrow> world" where
  "copy_sidecar source temp_path ext w =
     (let wal_path = source @ ext
      in case files w wal_path of
           None \<Rightarrow> w
         | Some side \<Rightarrow>
             (let wal_temp_path = temp_path @ ext;
                  dst = (case files w wal_temp_path of
                           None \<Rightarrow> wal_temp_path
                         | Some d \<Rightarrow>
                             if kind d = Directory
                             then wal_temp_path @ ''/'' @ basename wal_path
                             else wal_temp_path);
                  w = log_event (OpenRead wal_path) w
              in if kind side = Directory \<or> \<not> readable side then w
                 else
                   (let w = log_event (OpenWrite dst) w
                    in if read_error side then write_file dst (new_file [] 420) w
                       else
                         (let w = write_file dst (new_file (content side) (mode side)) w;
                              w = log_event (Chmod wal_temp_path 384) w
                          in case files w wal_temp_path of
                               None \<Rightarrow> w
                             | Some d \<Rightarrow> write_file wal_temp_path (d\<lparr>mode := 384\<rparr>) w))))"

text \<open>
  \<open>_create_temp_copy\<close>.  Any exception inside is reported as RuntimeError.  The permission
  bits 0o700 and 0o600 are 448 and 384.  \<open>NamedTemporaryFile\<close> creates its file exclusively:
  it never opens a name that is taken, and a taken name counts here as the failure the
  library reports when it finds no free name.
\<close>

definition create_temp_copy ::
  "os_env \<Rightarrow> BaseParser \<Rightarrow> world \<Rightarrow> (py_exception + string) \<times> world" where
  "create_temp_copy env self w =
     (let failed = Inl (RuntimeError ''Failed to create temporary database copy'');
          temp_dir = gettempdir env @ ''/BrowserHunter'';
          w = (case files w temp_dir of
                 None \<Rightarrow>
                   write_file temp_dir
                     \<lparr>kind = Directory, content = [], mode = 448, readable = True,
                      read_error = False\<rparr>
                     (log_event (Mkdir temp_dir 448) w)
               | Some d \<Rightarrow>
                   if mode d \<noteq> 448
                   then write_file temp_dir (d\<lparr>mode := 448\<rparr>) (log_event (Chmod temp_dir 448) w)
                   else w);
          temp_path = temp_dir @ ''/bhh_'' @ random_name env @ ''.db''
      in if (case files w temp_dir of None \<Rightarrow> True | Some d \<Rightarrow> kind d \<noteq> Directory)
         then (failed, w)
         else if files w temp_path \<noteq> None then (failed, w)
         else
           (let w = write_file temp_path (new_file [] 384) (log_event (OpenWrite temp_path) w);
                w = log_event (OpenRead (db_path self)) w
            in case files w (db_path self) of
                 None \<Rightarrow> (failed, w)
               | Some src \<Rightarrow>
                   if kind src = Directory \<or> \<not> readable src \<or> read_error src
                   then (failed, w)
                   else
                     (let w = write_file temp_path (new_file (content src) 384) w;
                          w = log_event (Chmod temp_path 384) w;
                          w = copy_sidecar (db_path self) temp_path ''-wal'' w;
                          w = copy_sidecar (db_path self) temp_path ''-shm'' w
                      in (Inr temp_path, w))))"

definition connect ::
  "os_env \<Rightarrow> BaseParser \<Rightarrow> world \<Rightarrow> (py_exception + string) \<times> BaseParser \<times> world" where
  "connect env self w =
     (case connection self of
        Some c \<Rightarrow> (Inr c, self, w)
      | None \<Rightarrow>
          (case create_temp_copy env self w of
             (Inl e, w) \<Rightarrow> (Inl e, self, w)
           | (Inr temp, w) \<Rightarrow>
               (Inr temp,
                self\<lparr>temp_db_path := Some temp, connection := Some temp\<rparr>,
                log_event (OpenRead temp) w)))"

text \<open>
  \<open>os.unlink\<close> inside \<open>try\<close>: on a directory it raises, which is caught and logged.
\<close>

definition unlink :: "string \<Rightarrow> world \<Rightarrow> world" where
  "unlink path w =
     (let w = log_event (Unlink path) w
      in case files w path of
           None \<Rightarrow> w
         | Some n \<Rightarrow> if kind n = Directory then w else w\<lparr>files := (files w)(path := None)\<rparr>)"

definition unlink_if_exists :: "string \<Rightarrow> world \<Rightarrow> world" where
  "unlink_if_exists path w = (if files w path \<noteq> None then unlink path w else w)"

definition close :: "BaseParser \<Rightarrow> world \<Rightarrow> BaseParser \<times> world" where
  "close self w =
     (let self = self\<lparr>connection := None\<rparr>
      in case temp_db_path self of
           None \<Rightarrow> (self, w)
         | Some temp \<Rightarrow>
             if files w temp = None then (self, w)
             else
               (let w = unlink temp w;
                    w = unlink_if_exists (temp @ ''-wal'') w;
                    w = unlink_if_exists (temp @ ''-shm'') w
                in (self, w)))"

text \<open>A full cycle: acquire, then close (\<open>__enter__\<close> and \<open>__exit__\<close>).\<close>

definition acquire_then_close :: "os_env \<Rightarrow> BaseParser \<Rightarrow> world \<Rightarrow> BaseParser \<times> world" where
  "acquire_then_close env self w =
     (case connect env self w of (r, self, w) \<Rightarrow> close self w)"

section \<open>Notions used in the statements and proofs\<close>

subsection \<open>Sessions\<close>

text \<open>
  A session of the loop is well formed for a gap: it has entries, consecutive entries are
  at most the gap apart, and its \<open>start\<close> and \<open>end\<close> are the times of its first and last
  entry.  Two consecutive sessions are split: the first entry of the later one is more
  than the gap after the last entry of the earlier one.
\<close>

definition well_formed :: "int \<Rightarrow> session_dict \<Rightarrow> bool" where
  "well_formed g s \<longleftrightarrow>
     session_entries s \<noteq> []
     \<and> successively (\<lambda>a b. minutes_between (visit_time a) (visit_time b) \<le> of_int g)
         (session_entries s)
     \<and> session_start s = visit_time (hd (session_entries s))
     \<and> session_end s = visit_time (last (session_entries s))"

definition split_between :: "int \<Rightarrow> session_dict \<Rightarrow> session_dict \<Rightarrow> bool" where
  "split_between g s t \<longleftrightarrow>
     minutes_between (visit_time (last (session_entries s))) (visit_time (hd (session_entries t)))
       > of_int g"

subsection \<open>File-system events\<close>

text \<open>An event mutates a path when it opens it for writing, removes it or changes its mode.\<close>

fun mutates :: "string \<Rightarrow> fs_event \<Rightarrow> bool" where
  "mutates p (OpenRead q) = False"
| "mutates p (OpenWrite q) = (q = p)"
| "mutates p (Unlink q) = (q = p)"
| "mutates p (Chmod q m) = (q = p)"
| "mutates p (Mkdir q m) = (q = p)"

text \<open>
  From one state of the world to a later one, a path is untouched: what is stored there is
  the same, and no event in between mutates it.
\<close>

definition untouched :: "string \<Rightarrow> world \<Rightarrow> world \<Rightarrow> bool" where
  "untouched p w w' \<longleftrightarrow>
     files w' p = files w p
     \<and> (\<exists>es. events w' = events w @ es \<and> list_all (\<lambda>e. \<not> mutates p e) es)"

definition has_db_extension :: "string \<Rightarrow> bool" where
  "has_db_extension p \<longleftrightarrow> list_ex (\<lambda>ext. endswith (lower p) ext) allowed_extensions"

text \<open>A value is a SHA-256 digest in hexadecimal: 64 characters, each a hexadecimal digit.\<close>

definition is_hex_digest :: "string \<Rightarrow> bool" where
  "is_hex_digest s \<longleftrightarrow> length s = 64 \<and> list_all (\<lambda>c. c \<in> set ''0123456789abcdef'') s"

subsection \<open>Example inputs\<close>

text \<open>
  An evidence file with a write-ahead log beside it, on a POSIX system whose temporary
  directory is \<open>/tmp\<close>.  The digest function of the example is a stand-in.
\<close>

definition example_env :: os_env where
  "example_env =
     \<lparr>resolve = (\<lambda>p. p), os_name_nt = False, gettempdir = ''/tmp'',
      random_name = ''k3x9q2ab'', sha256_hexdigest = (\<lambda>data. replicate 64 (CHR ''0''))\<rparr>"

definition example_world :: world where
  "example_world =
     \<lparr>files =
        [''/tmp'' \<mapsto>
           \<lparr>kind = Directory, content = [], mode = 1023, readable = True, read_error = False\<rparr>,
         ''/evidence/History.db'' \<mapsto> new_file [83, 81, 76, 105, 116, 101] 420,
         ''/evidence/History.db-wal'' \<mapsto> new_file [55, 127, 6, 130] 420],
      events = []\<rparr>"

text \<open>The same evidence file where reading the data fails although the file opens.\<close>

definition unreadable_world :: world where
  "unreadable_world =
     \<lparr>files =
        [''/evidence/History.db'' \<mapsto>
           (new_file [83, 81, 76, 105, 116, 101] 420)\<lparr>read_error := True\<rparr>],
      events = []\<rparr>"

text \<open>
  A database with a table \<open>urls\<close> of three rows and the internal table \<open>sqlite_sequence\<close>,
  and a parser on it that has run no statement yet.  The \<open>LIKE\<close> of the example matches a
  text that contains the pattern without its two \<open>%\<close>, in either case.  The engine of the
  example has a few keywords; to a statement the model does not interpret it answers with
  an error (its message shortened), for the one such statement the examples run with the
  error the columns of \<open>urls\<close> lead to.
\<close>

definition example_urls :: sql_table where
  "example_urls =
     \<lparr>tbl_name = ''urls'',
      tbl_columns =
        [\<lparr>cid = 0, col_name = ''id'', col_type = ''INTEGER'', notnull = 0,
          dflt_value = SQLNull, pk = 1\<rparr>,
         \<lparr>cid = 1, col_name = ''url'', col_type = ''LONGVARCHAR'', notnull = 0,
          dflt_value = SQLNull, pk = 0\<rparr>],
      tbl_rows =
        [[SQLInteger 1, SQLText ''https://example.org/''],
         [SQLInteger 2, SQLText ''https://example.org/a''],
         [SQLInteger 3, SQLText ''https://example.net/'']]\<rparr>"

definition example_sequence :: sql_table where
  "example_sequence =
     \<lparr>tbl_name = ''sqlite_sequence'',
      tbl_columns =
        [\<lparr>cid = 0, col_name = ''name'', col_type = [], notnull = 0,
          dflt_value = SQLNull, pk = 0\<rparr>,
         \<lparr>cid = 1, col_name = ''seq'', col_type = [], notnull = 0,
          dflt_value = SQLNull, pk = 0\<rparr>],
      tbl_rows = [[SQLText ''urls'', SQLInteger 3]]\<rparr>"

definition example_like :: "sql_value \<Rightarrow> sql_value \<Rightarrow> bool" where
  "example_like v prm =
     (case (v, prm) of
        (SQLText s, SQLText pat) \<Rightarrow> sublist (lower (inner pat)) (lower s)
      | _ \<Rightarrow> False)"

definition example_keywords :: "string list" where
  "example_keywords =
     [''select'', ''from'', ''where'', ''table'', ''order'', ''group'', ''limit'', ''or'',
      ''and'', ''not'', ''null'', ''like'']"

definition example_connection :: sqlite_connection where
  "example_connection =
     \<lparr>snapshot = [example_urls, example_sequence],
      is_keyword = (\<lambda>s. ascii_lower s \<in> set example_keywords),
      sql_like = example_like,
      other_table_info = (\<lambda>sql. Inl (OperationalError ''syntax error'')),
      other_select =
        (\<lambda>sql params.
           if sql = ''SELECT * FROM urls WHERE title LIKE ? OR 1=1 OR url LIKE ?''
           then Inl (OperationalError ''no such column: title'')
           else Inl (OperationalError ''syntax error'')),
      other_count = (\<lambda>sql. Inl (OperationalError ''syntax error'')),
      executed = []\<rparr>"

definition example_parser :: GenericSQLiteParser where
  "example_parser =
     \<lparr>g_db_path = ''/evidence/History'', valid_tables = None,
      g_file_hash = replicate 64 (CHR ''0''), browser_type = ''Unknown'',
      conn = example_connection\<rparr>"

definition example_decode :: "nat list \<Rightarrow> string" where
  "example_decode b = map char_of b"

text \<open>A regular-expression library that compiles nothing, for examples.\<close>

definition example_re :: "unit re_module" where
  "example_re = \<lparr>re_compile = (\<lambda>pattern ignorecase. None), re_search = (\<lambda>r text. False)\<rparr>"

definition example_urlparse :: "string \<Rightarrow> string \<times> (string \<times> string list) list" where
  "example_urlparse u = (takeWhile (\<lambda>c. c \<noteq> CHR ''/'') (drop 8 u), [])"

text \<open>Four visits, at 0, 10, 45 and 50 minutes after the epoch.\<close>

definition example_entries :: "HistoryEntry list" where
  "example_entries =
     [HistoryEntry_init example_urlparse 1 ''https://example.org/'' (Some ''Home'') 0 3 ''chrome'',
      HistoryEntry_init example_urlparse 2 ''https://example.net/x'' None 600000000 1 ''chrome'',
      HistoryEntry_init example_urlparse 3 ''https://example.org/b'' (Some ''B'') 2700000000 1
        ''chrome'',
      HistoryEntry_init example_urlparse 4 ''https://example.net/y'' (Some ''Y'') 3000000000 2
        ''chrome'']"


section \<open>Properties of the float rounding\<close>

text \<open>
  Rounding to a double moves a number by at most the fraction \<open>2^-53\<close> of its magnitude.
\<close>

lemma round_half_even_near: "\<bar>of_int (round_half_even x) - x\<bar> \<le> 1 / 2"
proof -
  have "of_int \<lfloor>x\<rfloor> \<le> x" "x < of_int \<lfloor>x\<rfloor> + 1"
    by linarith+
  then show ?thesis
    by (auto simp: round_half_even_def Let_def)
qed

lemma float_exponent_bounds:
  assumes "x \<noteq> 0"
  shows "2 powi (float_exponent x) \<le> \<bar>x\<bar>" and "\<bar>x\<bar> < 2 powi (float_exponent x + 1)"
proof -
  define a where "a = \<bar>x\<bar>"
  have pos: "0 < a"
    using assms by (simp add: a_def)
  have "2 powi (float_exponent x) \<le> a \<and> a < 2 powi (float_exponent x + 1)"
  proof (cases "1 \<le> a")
    case True
    define n where "n = \<lfloor>a\<rfloor>"
    have n: "0 < n" "of_int n \<le> a" "a < of_int n + 1"
      using True by (auto simp: n_def) linarith+
    have e: "float_exponent x = bitlen n - 1"
      using True by (simp add: float_exponent_def a_def [symmetric] n_def)
    from bitlen_bounds [OF n(1)] have b: "2 ^ nat (bitlen n - 1) \<le> n" "n < 2 ^ nat (bitlen n)"
      by simp_all
    have ge1: "1 \<le> bitlen n"
      using n(1) by (simp add: bitlen_alt_def)
    have "(2::rat) ^ nat (bitlen n - 1) \<le> of_int n"
      using b(1) by (metis of_int_le_iff of_int_numeral of_int_power)
    moreover have "of_int n + 1 \<le> (2::rat) ^ nat (bitlen n)"
    proof -
      from b(2) have "n + 1 \<le> 2 ^ nat (bitlen n)" by simp
      then have "(of_int (n + 1) :: rat) \<le> of_int (2 ^ nat (bitlen n))"
        by (simp only: of_int_le_iff)
      then show ?thesis by simp
    qed
    ultimately have "(2::rat) ^ nat (bitlen n - 1) \<le> a" "a < (2::rat) ^ nat (bitlen n)"
      using n(2,3) by linarith+
    moreover have "2 powi (bitlen n - 1) = (2::rat) ^ nat (bitlen n - 1)"
      "2 powi (bitlen n - 1 + 1) = (2::rat) ^ nat (bitlen n)"
      using ge1 by (simp_all add: power_int_def)
    ultimately show ?thesis
      by (simp only: e)
  next
    case False
    define m where "m = \<lfloor>1 / a\<rfloor>"
    define k where "k = bitlen m - 1"
    have "1 < 1 / a"
      using False pos by (simp add: field_simps)
    then have m: "0 < m" "of_int m \<le> 1 / a" "1 / a < of_int m + 1"
      by (auto simp: m_def) linarith+
    from bitlen_bounds [OF m(1)] have b: "2 ^ nat k \<le> m" "m < 2 ^ nat (k + 1)"
      by (simp_all add: k_def)
    have k0: "0 \<le> k"
      using m(1) by (simp add: k_def bitlen_alt_def)
    have lo: "(2::rat) ^ nat k \<le> 1 / a"
    proof -
      have "(2::rat) ^ nat k \<le> of_int m"
        using b(1) by (metis of_int_le_iff of_int_numeral of_int_power)
      with m(2) show ?thesis by linarith
    qed
    have hi: "1 / a < (2::rat) ^ nat (k + 1)"
    proof -
      from b(2) have "m + 1 \<le> 2 ^ nat (k + 1)" by simp
      then have "(of_int (m + 1) :: rat) \<le> of_int (2 ^ nat (k + 1))"
        by (simp only: of_int_le_iff)
      then have "of_int m + 1 \<le> (2::rat) ^ nat (k + 1)" by simp
      with m(3) show ?thesis by linarith
    qed
    from lo pos have le1: "a * 2 ^ nat k \<le> 1"
      by (simp add: field_simps)
    from hi pos have gt: "1 < a * 2 ^ nat (k + 1)"
      by (simp add: field_simps)
    have e: "float_exponent x = (if a * 2 ^ nat k = 1 then - k else - k - 1)"
      using False by (simp add: float_exponent_def a_def [symmetric] m_def k_def Let_def)
    have suc: "(2::rat) ^ nat (k + 1) = 2 * 2 ^ nat k"
      using k0 by (simp add: nat_add_distrib)
    have pk: "2 powi (- k) = 1 / ((2::rat) ^ nat k)"
      using k0 by (simp add: power_int_minus power_int_def field_simps)
    have step: "2 powi (i + 1) = 2 * ((2::rat) powi i)" for i
      by (simp add: power_int_add)
    show ?thesis
    proof (cases "a * 2 ^ nat k = 1")
      case True
      then have a: "a = 1 / 2 ^ nat k"
        by (simp add: field_simps)
      have s1: "2 powi (- k + 1) = 2 * (1 / (2::rat) ^ nat k)"
        unfolding step pk ..
      have "2 powi (- k) \<le> a" "a < 2 powi (- k + 1)"
        unfolding s1 pk a by (simp_all add: divide_strict_right_mono)
      with True e show ?thesis by simp
    next
      case ne: False
      with le1 have lt: "a * 2 ^ nat k < 1" by simp
      have p2: "2 powi (- k - 1 + 1) = 1 / ((2::rat) ^ nat k)"
        using pk by simp
      have "2 * 2 powi (- k - 1) = 1 / ((2::rat) ^ nat k)"
        using step [of "- k - 1"] p2 by simp
      then have "2 powi (- k - 1) = 1 / (2 * (2::rat) ^ nat k)"
        by (simp add: field_simps)
      then have p1: "2 powi (- k - 1) = 1 / ((2::rat) ^ nat (k + 1))"
        by (simp only: suc)
      have "1 / ((2::rat) ^ nat (k + 1)) \<le> a"
        using gt by (simp add: field_simps)
      moreover have "a < 1 / ((2::rat) ^ nat k)"
        using lt by (simp add: field_simps)
      ultimately show ?thesis
        using ne e p1 p2 by simp
    qed
  qed
  then show "2 powi (float_exponent x) \<le> \<bar>x\<bar>" and "\<bar>x\<bar> < 2 powi (float_exponent x + 1)"
    by (simp_all add: a_def)
qed

lemma round_to_double_near:
  "\<bar>round_to_double x - x\<bar> \<le> \<bar>x\<bar> / 2 ^ 53"
proof (cases "x = 0")
  case True
  then show ?thesis by (simp add: round_to_double_def)
next
  case False
  define q :: rat where "q = 2 powi (float_exponent x - 52)"
  have qpos: "0 < q"
    by (simp add: q_def)
  have q: "q * 2 ^ 52 = 2 powi (float_exponent x)"
    by (simp add: q_def power_int_diff)
  have r: "round_to_double x = of_int (round_half_even (x / q)) * q"
    using False by (simp add: round_to_double_def q_def Let_def)
  have "round_to_double x - x = (of_int (round_half_even (x / q)) - x / q) * q"
    using qpos by (simp add: r left_diff_distrib)
  then have "\<bar>round_to_double x - x\<bar> = \<bar>of_int (round_half_even (x / q)) - x / q\<bar> * q"
    using qpos by (simp only: abs_mult abs_of_pos)
  also have "\<dots> \<le> 1 / 2 * q"
    using round_half_even_near [of "x / q"] qpos by (intro mult_right_mono) simp_all
  also have "\<dots> = 2 powi (float_exponent x) / 2 ^ 53"
    using q [symmetric] by simp
  also have "\<dots> \<le> \<bar>x\<bar> / 2 ^ 53"
    using float_exponent_bounds(1) [OF False] by (simp add: divide_right_mono)
  finally show ?thesis .
qed

lemma round_to_double_bound: "\<bar>round_to_double x\<bar> \<le> 2 * \<bar>x\<bar>"
proof -
  have "\<bar>round_to_double x\<bar> \<le> \<bar>round_to_double x - x\<bar> + \<bar>x\<bar>"
    by simp
  also have "\<dots> \<le> \<bar>x\<bar> / 2 ^ 53 + \<bar>x\<bar>"
    using round_to_double_near [of x] by simp
  also have "\<dots> \<le> 2 * \<bar>x\<bar>"
    by simp
  finally show ?thesis .
qed


section \<open>Properties of the search engine\<close>

subsection \<open>\<open>SearchFilter.apply\<close>\<close>

lemma apply_loop_eq:
  "apply_loop re fs es = filter (\<lambda>e. \<forall>f\<in>set fs. filter_func re f e) es"
  by (induction fs arbitrary: es) (auto intro: filter_cong)

lemma SearchFilter_apply_eq:
  "SearchFilter_apply re sf es = filter (\<lambda>e. \<forall>f\<in>set (filters sf). filter_func re f e) es"
  by (simp add: SearchFilter_apply_def apply_loop_eq)

text \<open>
  C9.  For every list of entries and every list of added filters, \<open>apply\<close> returns the
  entries that satisfy all filters, in the order of the input: the result is the input
  filtered by the conjunction, it is a subsequence of the input, and applying the same
  filters to the result gives the result again.
\<close>

theorem apply_and_semantics:
  "SearchFilter_apply re sf es = filter (\<lambda>e. \<forall>f\<in>set (filters sf). filter_func re f e) es
   \<and> subseq (SearchFilter_apply re sf es) es
   \<and> SearchFilter_apply re sf (SearchFilter_apply re sf es) = SearchFilter_apply re sf es"
proof (intro conjI)
  let ?all = "\<lambda>e. \<forall>f\<in>set (filters sf). filter_func re f e"
  show eq: "SearchFilter_apply re sf es = filter ?all es"
    by (rule SearchFilter_apply_eq)
  show "subseq (SearchFilter_apply re sf es) es"
    unfolding eq by (rule subseq_filter_left)
  have "SearchFilter_apply re sf (filter ?all es) = filter ?all (filter ?all es)"
    by (rule SearchFilter_apply_eq)
  also have "\<dots> = filter ?all es"
    by simp
  finally show "SearchFilter_apply re sf (SearchFilter_apply re sf es)
      = SearchFilter_apply re sf es"
    unfolding eq .
qed

theorem apply_and_semantics_witness:
  "map entry_id
     (SearchFilter_apply example_re
        \<lparr>filters = [DomainFilter [''example.org''], VisitCountFilter None (Some 2)]\<rparr>
        example_entries) = [3]
   \<and> SearchFilter_apply example_re
        \<lparr>filters = [DomainFilter [''example.org''], VisitCountFilter None (Some 2)]\<rparr>
        (SearchFilter_apply example_re
           \<lparr>filters = [DomainFilter [''example.org''], VisitCountFilter None (Some 2)]\<rparr>
           example_entries)
      = SearchFilter_apply example_re
          \<lparr>filters = [DomainFilter [''example.org''], VisitCountFilter None (Some 2)]\<rparr>
          example_entries"
  using apply_and_semantics
    [of example_re "\<lparr>filters = [DomainFilter [''example.org''], VisitCountFilter None (Some 2)]\<rparr>"
      example_entries]
  by (simp add: example_entries_def HistoryEntry_init_def example_urlparse_def
      SearchFilter_apply_eq)

subsection \<open>The regex safety gate\<close>

lemma validate_regex_pattern_iff:
  "validate_regex_pattern p \<longleftrightarrow> length p \<le> 500 \<and> complexity_score p \<le> 50"
  by (auto simp: validate_regex_pattern_def MAX_REGEX_LENGTH_def)

lemma complexity_score_parens: "complexity_score (replicate n (CHR ''('')) = n"
  by (induction n) (simp_all add: complexity_score_def)

text \<open>
  C6.  The gate accepts a pattern exactly when it has at most 500 characters and a
  complexity score of at most 50: a score of 50 is accepted, a score of 51 and a length of
  501 are rejected.  A keyword filter or a URL filter in regex mode whose pattern the gate
  rejects, or which does not compile, rejects every entry.
\<close>

theorem regex_gate_fails_closed:
  "(validate_regex_pattern p \<longleftrightarrow> length p \<le> 500 \<and> complexity_score p \<le> 50)
   \<and> validate_regex_pattern (replicate 50 (CHR ''(''))
   \<and> \<not> validate_regex_pattern (replicate 51 (CHR ''(''))
   \<and> \<not> validate_regex_pattern (replicate 501 (CHR ''a''))
   \<and> (\<not> validate_regex_pattern p \<or> re_compile re p (\<not> case_sensitive) = None \<longrightarrow>
        filter_func re (KeywordFilter p case_sensitive True) entry = False)
   \<and> (\<not> validate_regex_pattern p \<or> re_compile re p True = None \<longrightarrow>
        filter_func re (UrlFilter p True) entry = False)"
proof -
  have "complexity_score (replicate 501 (CHR ''a'')) = 0"
    by (simp add: complexity_score_def count_list_0_iff)
  then show ?thesis
    by (auto simp: validate_regex_pattern_iff complexity_score_parens safe_regex_compile_def)
qed

theorem regex_gate_fails_closed_witness:
  "\<not> validate_regex_pattern (replicate 51 (CHR ''(''))
   \<and> filter_func example_re (KeywordFilter (replicate 51 (CHR ''('')) False True)
        (hd example_entries) = False
   \<and> re_compile example_re ''a+'' True = None
   \<and> filter_func example_re (UrlFilter ''a+'' True) (hd example_entries) = False"
  using regex_gate_fails_closed
    [of "replicate 51 (CHR ''('')" example_re False "hd example_entries"]
    regex_gate_fails_closed [of "''a+''" example_re False "hd example_entries"]
  by (simp add: example_re_def)

subsection \<open>The query parser\<close>

lemma isspace_not_delimiter: "isspace c \<Longrightarrow> c \<noteq> CHR 0x22 \<and> c \<noteq> CHR ''/''"
  by (auto simp: isspace_def)

lemma strip_empty_iff: "strip s = [] \<longleftrightarrow> (\<forall>c\<in>set s. isspace c)"
proof
  assume "strip s = []"
  then have a: "dropWhile isspace (rev (dropWhile isspace s)) = []"
    by (simp add: strip_def)
  have "dropWhile isspace s = []"
  proof (rule ccontr)
    assume n: "dropWhile isspace s \<noteq> []"
    then have "\<not> isspace (hd (dropWhile isspace s))"
      by (rule hd_dropWhile)
    moreover have "hd (dropWhile isspace s) \<in> set (rev (dropWhile isspace s))"
      using n by simp
    ultimately show False
      using a by (metis dropWhile_eq_Nil_conv)
  qed
  then show "\<forall>c\<in>set s. isspace c"
    by simp
next
  assume "\<forall>c\<in>set s. isspace c"
  then have "dropWhile isspace s = []"
    by simp
  then show "strip s = []"
    unfolding strip_def by (simp only: rev.simps dropWhile.simps)
qed

lemma tokenize_spaces:
  assumes "\<forall>c\<in>set s. isspace c" and "current_token st = []"
    and "\<not> in_quotes st" and "\<not> in_regex st"
  shows "foldl tokenize_char st s = st"
  using assms
  by (induction s arbitrary: st) (auto simp: tokenize_char_def dest: isspace_not_delimiter)

lemma tokenize_blank: "strip q = [] \<Longrightarrow> tokenize q = []"
  by (simp add: tokenize_def strip_empty_iff tokenize_spaces)

lemma parse_query_tokens:
  "parse_query q = foldl parse_token SearchFilter_init (tokenize q)"
  by (simp add: parse_query_def tokenize_blank)

lemma parse_token_filters:
  "filters (parse_token sf t) = filters sf @ filters (parse_token SearchFilter_init t)"
  by (auto simp: parse_token_def Let_def add_keyword_filter_def SearchFilter_init_def)

lemma parse_tokens_filters:
  "filters (foldl parse_token sf ts)
     = filters sf @ concat (map (\<lambda>t. filters (parse_token SearchFilter_init t)) ts)"
proof (induction ts arbitrary: sf)
  case Nil
  show ?case by simp
next
  case (Cons t ts)
  show ?case
    by (simp add: Cons.IH [of "parse_token sf t"] parse_token_filters [of sf t])
qed

lemma operator_token_no_filter:
  "strip t \<in> set operators \<Longrightarrow> parse_token sf t = sf"
  by (auto simp: parse_token_def operators_def startswith_def endswith_def suffix_def)

lemma parse_tokens_drop_operators:
  "foldl parse_token sf (filter (\<lambda>t. strip t \<notin> set operators) ts) = foldl parse_token sf ts"
  by (induction ts arbitrary: sf) (simp_all add: operator_token_no_filter)

lemma bare_filter_not_operator:
  "KeywordFilter k False False \<in> set (filters (parse_token SearchFilter_init t))
     \<Longrightarrow> k \<notin> set operators"
  by (auto simp: parse_token_def Let_def add_keyword_filter_def SearchFilter_init_def
      split: if_splits)

lemma example_query_tokens:
  \<open>tokenize ''"exact phrase" /foo.*bar/ plainword''
     = [''"exact phrase"'', ''/foo.*bar/'', ''plainword'']\<close>
  by code_simp

lemma example_query_strips:
  \<open>strip ''"exact phrase"'' = ''"exact phrase"''\<close>
  \<open>strip ''/foo.*bar/'' = ''/foo.*bar/''\<close>
  \<open>strip ''plainword'' = ''plainword''\<close>
  by code_simp+

lemma example_query_filters:
  \<open>filters (parse_query ''"exact phrase" /foo.*bar/ plainword'') =
     [KeywordFilter ''exact phrase'' True False, KeywordFilter ''foo.*bar'' False True,
      KeywordFilter ''plainword'' False False]\<close>
  unfolding parse_query_tokens example_query_tokens
  by (simp add: parse_token_def example_query_strips startswith_def endswith_def inner_def
      add_keyword_filter_def SearchFilter_init_def operators_def suffix_def)

text \<open>
  C8.  The query \<open>"exact phrase" /foo.*bar/ plainword\<close> gives exactly three keyword filters:
  a case-sensitive plain one for the phrase, a regex one, and a case-insensitive plain one
  for the bare word.  For every query, no bare-word filter has the keyword \<open>AND\<close>, \<open>OR\<close> or
  \<open>NOT\<close>, the parse is the parse of the tokens without those three, and applying the
  parsed filters keeps the entries that satisfy all of them.
\<close>

theorem parse_query_filters:
  \<open>filters (parse_query ''"exact phrase" /foo.*bar/ plainword'') =
     [KeywordFilter ''exact phrase'' True False, KeywordFilter ''foo.*bar'' False True,
      KeywordFilter ''plainword'' False False]
   \<and> (KeywordFilter k False False \<in> set (filters (parse_query q)) \<longrightarrow> k \<notin> set operators)
   \<and> parse_query q
       = foldl parse_token SearchFilter_init
           (filter (\<lambda>t. strip t \<notin> set operators) (tokenize q))
   \<and> SearchFilter_apply re (parse_query q) es
       = filter (\<lambda>e. \<forall>f\<in>set (filters (parse_query q)). filter_func re f e) es\<close>
proof (intro conjI impI)
  show \<open>filters (parse_query ''"exact phrase" /foo.*bar/ plainword'') =
     [KeywordFilter ''exact phrase'' True False, KeywordFilter ''foo.*bar'' False True,
      KeywordFilter ''plainword'' False False]\<close>
    by (rule example_query_filters)
next
  assume "KeywordFilter k False False \<in> set (filters (parse_query q))"
  then obtain t where "KeywordFilter k False False \<in> set (filters (parse_token SearchFilter_init t))"
    by (auto simp: parse_query_tokens parse_tokens_filters SearchFilter_init_def)
  then show "k \<notin> set operators"
    by (rule bare_filter_not_operator)
next
  show "parse_query q
       = foldl parse_token SearchFilter_init
           (filter (\<lambda>t. strip t \<notin> set operators) (tokenize q))"
    by (simp only: parse_query_tokens parse_tokens_drop_operators)
next
  show "SearchFilter_apply re (parse_query q) es
       = filter (\<lambda>e. \<forall>f\<in>set (filters (parse_query q)). filter_func re f e) es"
    by (rule SearchFilter_apply_eq)
qed

lemma example_operator_query:
  "tokenize ''a OR b'' = [''a'', ''OR'', ''b'']"
  "strip ''a'' = ''a''" "strip ''OR'' = ''OR''" "strip ''b'' = ''b''"
  by code_simp+

theorem parse_query_filters_witness:
  "filters (parse_query ''a OR b'') = [KeywordFilter ''a'' False False, KeywordFilter ''b'' False False]
   \<and> KeywordFilter ''a'' False False \<in> set (filters (parse_query ''a OR b''))
   \<and> ''a'' \<notin> set operators"
  using parse_query_filters [of "''a''" "''a OR b''" example_re "[]"]
  by (simp add: parse_query_tokens example_operator_query parse_token_def startswith_def
      endswith_def add_keyword_filter_def SearchFilter_init_def operators_def suffix_def)


section \<open>Properties of the timestamp conversion\<close>

lemma fromtimestamp_0: "fromtimestamp (PyInt 0) = Inr 0"
  by (simp add: fromtimestamp_def MIN_DATETIME_SECONDS_def MAX_DATETIME_SECONDS_def)

lemma except_Inr: "except_ValueError_OSError (Inr d) = Inr d"
  by (simp add: except_ValueError_OSError_def)

lemma int_truediv_finite:
  assumes "\<bar>of_int t / 1000000 :: rat\<bar> < 2 ^ 1024 - 2 ^ 970"
  shows "int_truediv t 1000000 = Inr (round_to_double (of_int t / 1000000))"
  using assms by (simp add: int_truediv_def Let_def)

lemma int64_quotient:
  assumes "- (2 ^ 63) \<le> t" and "t < 2 ^ 63"
  shows "\<bar>of_int t / 1000000 :: rat\<bar> \<le> 2 ^ 63 / 1000000"
proof -
  have "\<bar>t\<bar> \<le> 2 ^ 63"
    using assms by simp
  then have "\<bar>(of_int t :: rat)\<bar> \<le> 2 ^ 63"
    by (metis of_int_abs of_int_le_iff of_int_numeral of_int_power)
  then show ?thesis
    by (simp add: divide_right_mono)
qed

lemma int_truediv_int64:
  assumes "- (2 ^ 63) \<le> t" and "t < 2 ^ 63"
  shows "int_truediv t 1000000 = Inr (round_to_double (of_int t / 1000000))"
proof (rule int_truediv_finite)
  show "\<bar>of_int t / 1000000 :: rat\<bar> < 2 ^ 1024 - 2 ^ 970"
    using int64_quotient [OF assms] by simp
qed

text \<open>
  A float of magnitude under \<open>2^62\<close> passes the range test of the seconds; then
  \<open>fromtimestamp\<close> returns or raises ValueError, which the handler of the conversions
  turns into the epoch.
\<close>

lemma modf_intpart_bound: "\<bar>of_int (modf_intpart d) :: rat\<bar> \<le> \<bar>d\<bar>"
proof (cases "0 \<le> d")
  case True
  then have "0 \<le> \<lfloor>d\<rfloor>" "of_int \<lfloor>d\<rfloor> \<le> d"
    by simp_all
  with True show ?thesis
    by (simp add: modf_intpart_def)
next
  case False
  then have "\<lceil>d\<rceil> \<le> 0" "d \<le> of_int \<lceil>d\<rceil>"
    by (simp_all add: ceiling_le_zero)
  with False show ?thesis
    by (simp add: modf_intpart_def)
qed

lemma object_to_timeval_float:
  assumes "\<bar>d\<bar> < 2 ^ 62"
  shows "\<exists>sec us. object_to_timeval (PyFloat d) = Inr (sec, us)"
proof -
  have "\<bar>of_int (modf_intpart d) :: rat\<bar> < 2 ^ 62"
    using modf_intpart_bound [of d] assms by linarith
  then have "\<bar>of_int (modf_intpart d) :: rat\<bar> < of_int (2 ^ 62)"
    by simp
  then have "(of_int \<bar>modf_intpart d\<bar> :: rat) < of_int (2 ^ 62)"
    by (simp only: of_int_abs)
  then have "\<bar>modf_intpart d\<bar> < 2 ^ 62"
    by (simp only: of_int_less_iff)
  then have "- (2 ^ 63) \<le> modf_intpart d - 1" "modf_intpart d + 1 < 2 ^ 63"
    by simp_all
  then show ?thesis
    by (simp add: Let_def)
qed

lemma fromtimestamp_handled:
  assumes "object_to_timeval ts = Inr tv"
  shows "except_ValueError_OSError (fromtimestamp ts)
     = Inr (case fromtimestamp ts of Inr d \<Rightarrow> d | Inl e \<Rightarrow> unix_epoch)"
proof -
  obtain sec us where tv: "tv = (sec, us)"
    by (cases tv)
  have "fromtimestamp ts = Inl (ValueError ''year is out of range'')
      \<or> (\<exists>d. fromtimestamp ts = Inr d)"
    using assms by (simp add: fromtimestamp_def [of ts] tv)
  then show ?thesis
    by (auto simp: except_ValueError_OSError_def fromtimestamp_0 unix_epoch_def)
qed

lemma chrome_seconds_bound:
  assumes "- (2 ^ 63) \<le> t" and "t < 2 ^ 63"
  shows "\<bar>round_to_double (round_to_double (of_int t / 1000000) - 11644473600)\<bar> < 2 ^ 62"
    and "\<bar>round_to_double (of_int t / 1000000)\<bar> < 2 ^ 62"
proof -
  let ?q = "of_int t / 1000000 :: rat"
  have q: "\<bar>round_to_double ?q\<bar> \<le> 2 * (2 ^ 63 / 1000000)"
    using round_to_double_bound [of ?q] int64_quotient [OF assms] by linarith
  then show "\<bar>round_to_double ?q\<bar> < 2 ^ 62"
    by simp
  have "\<bar>round_to_double ?q - 11644473600\<bar> \<le> \<bar>round_to_double ?q\<bar> + 11644473600"
    by simp
  with q have "\<bar>round_to_double ?q - 11644473600\<bar> \<le> 2 * (2 ^ 63 / 1000000) + 11644473600"
    by linarith
  then have "2 * \<bar>round_to_double ?q - 11644473600\<bar>
      \<le> 2 * (2 * (2 ^ 63 / 1000000) + 11644473600)"
    by (rule mult_left_mono) simp
  with round_to_double_bound [of "round_to_double ?q - 11644473600"]
  have "\<bar>round_to_double (round_to_double ?q - 11644473600)\<bar>
      \<le> 2 * (2 * (2 ^ 63 / 1000000) + 11644473600)"
    by (rule order_trans)
  then show "\<bar>round_to_double (round_to_double ?q - 11644473600)\<bar> < 2 ^ 62"
    by simp
qed

lemma chrome_body:
  assumes "t \<noteq> 0" and "\<bar>of_int t / 1000000 :: rat\<bar> < 2 ^ 1024 - 2 ^ 970"
  shows "chrome_timestamp_to_datetime t
     = except_ValueError_OSError
         (fromtimestamp
            (PyFloat (round_to_double (round_to_double (of_int t / 1000000) - 11644473600))))"
  using assms(1)
  by (simp add: chrome_timestamp_to_datetime_def int_truediv_finite [OF assms(2)]
      float_sub_int_def EPOCH_DIFF_def)

lemma unix_of_float:
  "unix_timestamp_to_datetime (PyFloat x) = except_ValueError_OSError (fromtimestamp (PyFloat x))"
proof (cases "x = 0")
  case True
  have "fromtimestamp (PyFloat 0) = Inr 0"
    by (simp add: fromtimestamp_def modf_intpart_def round_to_double_def round_half_even_def
        MIN_DATETIME_SECONDS_def MAX_DATETIME_SECONDS_def)
  with True show ?thesis
    by (simp add: unix_timestamp_to_datetime_def fromtimestamp_0 except_Inr)
next
  case False
  then show ?thesis
    by (simp add: unix_timestamp_to_datetime_def)
qed

text \<open>
  C4.  For every Chromium timestamp \<open>t\<close> other than 0, the value that stands for a missing
  timestamp, \<open>chrome_timestamp_to_datetime t\<close> is \<open>unix_timestamp_to_datetime\<close> applied to
  the float \<open>t / 1000000 - 11644473600\<close>: the quotient rounded to a double, and the
  difference rounded to a double.  Where the quotient is too large for a float, which
  needs a \<open>t\<close> far outside 64 bits, the expression raises OverflowError and so does
  \<open>chrome_timestamp_to_datetime t\<close>.  \<open>chrome_timestamp_to_datetime 0\<close> is the Unix epoch.
\<close>

theorem chrome_equals_unix_of_seconds:
  "(t \<noteq> 0 \<and> \<bar>of_int t / 1000000 :: rat\<bar> < 2 ^ 1024 - 2 ^ 970 \<longrightarrow>
      chrome_timestamp_to_datetime t
        = unix_timestamp_to_datetime
            (PyFloat (round_to_double (round_to_double (of_int t / 1000000) - 11644473600))))
   \<and> (t \<noteq> 0 \<and> \<bar>of_int t / 1000000 :: rat\<bar> \<ge> 2 ^ 1024 - 2 ^ 970 \<longrightarrow>
      chrome_timestamp_to_datetime t
        = Inl (OverflowError ''integer division result too large for a float''))
   \<and> chrome_timestamp_to_datetime 0 = Inr unix_epoch"
proof (intro conjI impI)
  assume "t \<noteq> 0 \<and> \<bar>of_int t / 1000000 :: rat\<bar> < 2 ^ 1024 - 2 ^ 970"
  then have nz: "t \<noteq> 0" and fin: "\<bar>of_int t / 1000000 :: rat\<bar> < 2 ^ 1024 - 2 ^ 970"
    by simp_all
  show "chrome_timestamp_to_datetime t
        = unix_timestamp_to_datetime
            (PyFloat (round_to_double (round_to_double (of_int t / 1000000) - 11644473600)))"
    unfolding chrome_body [OF nz fin] unix_of_float ..
next
  assume "t \<noteq> 0 \<and> \<bar>of_int t / 1000000 :: rat\<bar> \<ge> 2 ^ 1024 - 2 ^ 970"
  then show "chrome_timestamp_to_datetime t
        = Inl (OverflowError ''integer division result too large for a float'')"
    by (simp add: chrome_timestamp_to_datetime_def int_truediv_def
        except_ValueError_OSError_def Let_def)
next
  show "chrome_timestamp_to_datetime 0 = Inr unix_epoch"
    by (simp add: chrome_timestamp_to_datetime_def fromtimestamp_0 unix_epoch_def)
qed

lemma example_chrome_seconds:
  "round_to_double (round_to_double (of_int 13300000000000000 / 1000000) - 11644473600)
     = 1655526400"
  by code_simp

lemma example_unix_datetime:
  "unix_timestamp_to_datetime (PyFloat 1655526400) = Inr 1655526400000000"
  by code_simp

theorem chrome_equals_unix_of_seconds_witness:
  "(13300000000000000 :: int) \<noteq> 0
   \<and> \<bar>of_int 13300000000000000 / 1000000 :: rat\<bar> < 2 ^ 1024 - 2 ^ 970
   \<and> chrome_timestamp_to_datetime 13300000000000000
       = unix_timestamp_to_datetime (PyFloat 1655526400)
   \<and> chrome_timestamp_to_datetime 13300000000000000 = Inr 1655526400000000"
proof -
  have "(13300000000000000 :: int) \<noteq> 0
      \<and> \<bar>of_int 13300000000000000 / 1000000 :: rat\<bar> < 2 ^ 1024 - 2 ^ 970"
    by simp
  with chrome_equals_unix_of_seconds [of 13300000000000000]
  have "chrome_timestamp_to_datetime 13300000000000000
      = unix_timestamp_to_datetime
          (PyFloat (round_to_double
             (round_to_double (of_int 13300000000000000 / 1000000) - 11644473600)))"
    by blast
  then have "chrome_timestamp_to_datetime 13300000000000000
      = unix_timestamp_to_datetime (PyFloat 1655526400)"
    by (simp only: example_chrome_seconds)
  then show ?thesis
    by (simp add: example_unix_datetime)
qed

text \<open>
  The float of the code is the float of the model: \<open>13350000000123456 / 1000000 -
  11644473600\<close> is the double just under 1705526400.123456, whose microseconds round to
  123455, and one microsecond after 1601-01-01 comes out two microseconds after it.
\<close>

lemma example_chrome_rounding:
  "chrome_timestamp_to_datetime 13350000000123456 = Inr 1705526400123455"
  "chrome_timestamp_to_datetime 13350000000123457 = Inr 1705526400123457"
  "chrome_timestamp_to_datetime 1 = Inr (- 11644473599999998)"
  by code_simp+

text \<open>
  At \<open>t = 0\<close> the two sides of the general equation differ:
  \<open>unix_timestamp_to_datetime\<close> of \<open>0 / 1000000 - 11644473600\<close> is 1601-01-01, and
  \<open>chrome_timestamp_to_datetime 0\<close> is 1970-01-01.
\<close>

lemma chrome_zero_is_not_1601:
  "unix_timestamp_to_datetime
     (PyFloat (round_to_double (round_to_double (of_int 0 / 1000000) - 11644473600)))
     = Inr (- 11644473600000000)
   \<and> chrome_timestamp_to_datetime 0 = Inr 0"
  by code_simp

text \<open>
  C5.  On every integer of 64 bits (the values an SQLite column holds and the \<open>i64\<close> of
  the interface) each of the three conversions returns a datetime and raises nothing: the
  epoch for 0, the datetime of the instant where \<open>datetime.fromtimestamp\<close> accepts it, and
  the epoch where \<open>datetime.fromtimestamp\<close> fails.
\<close>

theorem conversions_total_on_int64:
  assumes "- (2 ^ 63) \<le> t" and "t < 2 ^ 63"
  shows "chrome_timestamp_to_datetime t
       = Inr (if t = 0 then unix_epoch
              else case fromtimestamp
                     (PyFloat (round_to_double
                        (round_to_double (of_int t / 1000000) - 11644473600))) of
                     Inr d \<Rightarrow> d
                   | Inl e \<Rightarrow> unix_epoch)
     \<and> firefox_timestamp_to_datetime t
       = Inr (if t = 0 then unix_epoch
              else case fromtimestamp (PyFloat (round_to_double (of_int t / 1000000))) of
                     Inr d \<Rightarrow> d
                   | Inl e \<Rightarrow> unix_epoch)
     \<and> unix_timestamp_to_datetime (PyInt t)
       = Inr (if t = 0 then unix_epoch
              else case fromtimestamp (PyInt t) of
                     Inr d \<Rightarrow> d
                   | Inl e \<Rightarrow> unix_epoch)"
proof (intro conjI)
  note b = chrome_seconds_bound [OF assms]
  have fin: "\<bar>of_int t / 1000000 :: rat\<bar> < 2 ^ 1024 - 2 ^ 970"
    using int64_quotient [OF assms] by simp
  let ?s = "round_to_double (round_to_double (of_int t / 1000000) - 11644473600)"
  obtain sec us where "object_to_timeval (PyFloat ?s) = Inr (sec, us)"
    using object_to_timeval_float [OF b(1)] by blast
  note h = fromtimestamp_handled [OF this]
  show "chrome_timestamp_to_datetime t
       = Inr (if t = 0 then unix_epoch
              else case fromtimestamp (PyFloat ?s) of Inr d \<Rightarrow> d | Inl e \<Rightarrow> unix_epoch)"
  proof (cases "t = 0")
    case True
    then show ?thesis
      by (simp add: chrome_timestamp_to_datetime_def fromtimestamp_0 unix_epoch_def)
  next
    case False
    then show ?thesis
      by (simp only: chrome_body [OF False fin] h if_False)
  qed
  let ?f = "round_to_double (of_int t / 1000000)"
  obtain sec' us' where "object_to_timeval (PyFloat ?f) = Inr (sec', us')"
    using object_to_timeval_float [OF b(2)] by blast
  note h' = fromtimestamp_handled [OF this]
  show "firefox_timestamp_to_datetime t
       = Inr (if t = 0 then unix_epoch
              else case fromtimestamp (PyFloat ?f) of Inr d \<Rightarrow> d | Inl e \<Rightarrow> unix_epoch)"
  proof (cases "t = 0")
    case True
    then show ?thesis
      by (simp add: firefox_timestamp_to_datetime_def fromtimestamp_0 unix_epoch_def)
  next
    case False
    then show ?thesis
      by (simp add: firefox_timestamp_to_datetime_def int_truediv_int64 [OF assms] h')
  qed
  have "object_to_timeval (PyInt t) = Inr (t, 0)"
    using assms by simp
  note h'' = fromtimestamp_handled [OF this]
  show "unix_timestamp_to_datetime (PyInt t)
       = Inr (if t = 0 then unix_epoch
              else case fromtimestamp (PyInt t) of Inr d \<Rightarrow> d | Inl e \<Rightarrow> unix_epoch)"
  proof (cases "t = 0")
    case True
    then show ?thesis
      by (simp add: unix_timestamp_to_datetime_def fromtimestamp_0 unix_epoch_def)
  next
    case False
    then show ?thesis
      by (simp add: unix_timestamp_to_datetime_def h'')
  qed
qed

lemma example_conversions:
  "fromtimestamp
     (PyFloat (round_to_double
        (round_to_double (of_int 13300000000000000 / 1000000) - 11644473600)))
     = Inr 1655526400000000"
  "fromtimestamp (PyFloat (round_to_double (of_int 13300000000000000 / 1000000)))
     = Inr 13300000000000000"
  "fromtimestamp (PyInt 13300000000000000) = Inl (ValueError ''year is out of range'')"
  by code_simp+

theorem conversions_total_on_int64_witness:
  "- (2 ^ 63) \<le> (13300000000000000 :: int)
   \<and> (13300000000000000 :: int) < 2 ^ 63
   \<and> chrome_timestamp_to_datetime 13300000000000000 = Inr 1655526400000000
   \<and> firefox_timestamp_to_datetime 13300000000000000 = Inr 13300000000000000
   \<and> unix_timestamp_to_datetime (PyInt 13300000000000000) = Inr unix_epoch"
proof -
  have "- (2 ^ 63) \<le> (13300000000000000 :: int)" "(13300000000000000 :: int) < 2 ^ 63"
    by simp_all
  from conversions_total_on_int64 [OF this] show ?thesis
    by (simp only: example_conversions) simp
qed

text \<open>
  The bound on the input is needed: on an integer too large for a float, or for \<open>time_t\<close>,
  OverflowError is raised, and the handler of the three functions catches ValueError and
  OSError only.
\<close>

lemma conversions_outside_int64:
  "chrome_timestamp_to_datetime (10 ^ 400)
     = Inl (OverflowError ''integer division result too large for a float'')"
  "firefox_timestamp_to_datetime (10 ^ 400)
     = Inl (OverflowError ''integer division result too large for a float'')"
  "unix_timestamp_to_datetime (PyInt (2 ^ 63))
     = Inl (OverflowError ''timestamp out of range for platform time_t'')"
  by (simp_all add: chrome_timestamp_to_datetime_def firefox_timestamp_to_datetime_def
      unix_timestamp_to_datetime_def int_truediv_def fromtimestamp_def
      except_ValueError_OSError_def Let_def)

lemma chrome_outside_time_t:
  "chrome_timestamp_to_datetime 10000000000000000000000000
     = Inl (OverflowError ''timestamp out of range for platform time_t'')"
  by code_simp


section \<open>Properties of the session segmentation\<close>

lemma finish_session_fields [simp]:
  "session_entries (finish_session s) = session_entries s"
  "session_start (finish_session s) = session_start s"
  "session_end (finish_session s) = session_end s"
  "entry_count (finish_session s) = length (session_entries s)"
  "duration_minutes (finish_session s) = round2 (minutes_between (session_start s) (session_end s))"
  by (simp_all add: finish_session_def session_dict.defs)

lemma session_loop_concat:
  "concat (map session_entries (session_loop g prev rest cur acc))
     = concat (map session_entries acc) @ session_entries cur @ rest"
  by (induction rest arbitrary: prev cur acc) (simp_all add: Let_def new_session_def)

lemma session_loop_well_formed:
  assumes "\<forall>s\<in>set acc. well_formed g s" and "well_formed g cur"
    and "last (session_entries cur) = prev"
  shows "\<forall>s\<in>set (session_loop g prev rest cur acc). well_formed g s"
  using assms
proof (induction rest arbitrary: prev cur acc)
  case Nil
  then show ?case by simp
next
  case (Cons e rest)
  show ?case
  proof (cases "minutes_between (visit_time prev) (visit_time e) \<le> of_int g")
    case True
    let ?cur = "cur\<lparr>session_end := visit_time e,
                    session_entries := session_entries cur @ [e],
                    session_domains := List.insert (domain e) (session_domains cur)\<rparr>"
    have "well_formed g ?cur"
      using Cons.prems(2,3) True
      by (auto simp: well_formed_def successively_append_iff)
    moreover have "last (session_entries ?cur) = e" by simp
    ultimately have "\<forall>s\<in>set (session_loop g e rest ?cur acc). well_formed g s"
      using Cons.IH [of acc ?cur e] Cons.prems(1) by blast
    with True show ?thesis by (simp add: Let_def)
  next
    case False
    have "well_formed g (new_session e)"
      by (simp add: well_formed_def new_session_def)
    moreover have "last (session_entries (new_session e)) = e"
      by (simp add: new_session_def)
    moreover have "\<forall>s\<in>set (acc @ [cur]). well_formed g s"
      using Cons.prems(1,2) by simp
    ultimately have
      "\<forall>s\<in>set (session_loop g e rest (new_session e) (acc @ [cur])). well_formed g s"
      using Cons.IH [of "acc @ [cur]" "new_session e" e] by blast
    with False show ?thesis by (simp add: Let_def)
  qed
qed

lemma session_loop_split:
  assumes "successively (split_between g) (acc @ [cur])"
    and "session_entries cur \<noteq> []" and "last (session_entries cur) = prev"
  shows "successively (split_between g) (session_loop g prev rest cur acc)"
  using assms
proof (induction rest arbitrary: prev cur acc)
  case Nil
  then show ?case by simp
next
  case (Cons e rest)
  show ?case
  proof (cases "minutes_between (visit_time prev) (visit_time e) \<le> of_int g")
    case True
    let ?cur = "cur\<lparr>session_end := visit_time e,
                    session_entries := session_entries cur @ [e],
                    session_domains := List.insert (domain e) (session_domains cur)\<rparr>"
    have "successively (split_between g) (acc @ [?cur])"
      using Cons.prems(1,2)
      by (auto simp: successively_append_iff split_between_def)
    moreover have "session_entries ?cur \<noteq> []" "last (session_entries ?cur) = e"
      by simp_all
    ultimately have "successively (split_between g) (session_loop g e rest ?cur acc)"
      using Cons.IH [of acc ?cur e] by blast
    with True show ?thesis by (simp add: Let_def)
  next
    case False
    have "split_between g cur (new_session e)"
      using False Cons.prems(3) by (simp add: split_between_def new_session_def)
    then have "successively (split_between g) ((acc @ [cur]) @ [new_session e])"
      using Cons.prems(1) by (simp add: successively_append_iff)
    moreover have "session_entries (new_session e) \<noteq> []"
      "last (session_entries (new_session e)) = e"
      by (simp_all add: new_session_def)
    ultimately have
      "successively (split_between g) (session_loop g e rest (new_session e) (acc @ [cur]))"
      using Cons.IH [of "acc @ [cur]" "new_session e" e] by blast
    with False show ?thesis by (simp add: Let_def)
  qed
qed

lemma calculate_session_duration_nonempty:
  assumes "entries \<noteq> []"
  obtains first rest where "sort_key visit_time entries = first # rest"
    and "calculate_session_duration entries g
           = map finish_session (session_loop g first rest (new_session first) [])"
proof -
  have "length (sort_key visit_time entries) = length entries"
    by simp
  with assms have "sort_key visit_time entries \<noteq> []"
    by (metis length_0_conv)
  then obtain first rest where fr: "sort_key visit_time entries = first # rest"
    by (cases "sort_key visit_time entries") auto
  with assms have "calculate_session_duration entries g
           = map finish_session (session_loop g first rest (new_session first) [])"
    by (simp add: calculate_session_duration_def)
  with fr show ?thesis by (rule that)
qed

lemma sessions_concat:
  "concat (map session_entries (calculate_session_duration entries g))
     = sort_key visit_time entries"
proof (cases "entries = []")
  case True
  then show ?thesis by (simp add: calculate_session_duration_def)
next
  case False
  then obtain first rest where fr: "sort_key visit_time entries = first # rest"
    and c: "calculate_session_duration entries g
           = map finish_session (session_loop g first rest (new_session first) [])"
    by (rule calculate_session_duration_nonempty)
  have "concat (map session_entries (calculate_session_duration entries g))
      = concat (map session_entries (session_loop g first rest (new_session first) []))"
    unfolding c by (simp add: comp_def)
  also have "\<dots> = first # rest"
    by (simp add: session_loop_concat new_session_def)
  finally show ?thesis
    by (simp only: fr)
qed

lemma sessions_well_formed:
  assumes "s \<in> set (calculate_session_duration entries g)"
  shows "session_entries s \<noteq> []
     \<and> successively (\<lambda>a b. minutes_between (visit_time a) (visit_time b) \<le> of_int g)
         (session_entries s)
     \<and> session_start s = visit_time (hd (session_entries s))
     \<and> session_end s = visit_time (last (session_entries s))
     \<and> entry_count s = length (session_entries s)"
proof (cases "entries = []")
  case True
  with assms show ?thesis by (simp add: calculate_session_duration_def)
next
  case False
  then obtain first rest where fr: "sort_key visit_time entries = first # rest"
    and c: "calculate_session_duration entries g
           = map finish_session (session_loop g first rest (new_session first) [])"
    by (rule calculate_session_duration_nonempty)
  from assms have "s \<in> finish_session ` set (session_loop g first rest (new_session first) [])"
    unfolding c set_map .
  then obtain d where s: "s = finish_session d"
    and d: "d \<in> set (session_loop g first rest (new_session first) [])"
    by (rule imageE)
  have "well_formed g (new_session first)"
    by (simp add: well_formed_def new_session_def)
  moreover have "last (session_entries (new_session first)) = first"
    by (simp add: new_session_def)
  moreover have "\<forall>s\<in>set []. well_formed g s"
    by simp
  ultimately have "\<forall>s\<in>set (session_loop g first rest (new_session first) []). well_formed g s"
    by (intro session_loop_well_formed)
  with d have "well_formed g d"
    by blast
  then show ?thesis
    unfolding s well_formed_def by simp
qed

lemma sessions_split:
  "successively
     (\<lambda>s t. minutes_between (visit_time (last (session_entries s)))
               (visit_time (hd (session_entries t))) > of_int g)
     (calculate_session_duration entries g)"
proof (cases "entries = []")
  case True
  then show ?thesis by (simp add: calculate_session_duration_def)
next
  case False
  then obtain first rest where fr: "sort_key visit_time entries = first # rest"
    and c: "calculate_session_duration entries g
           = map finish_session (session_loop g first rest (new_session first) [])"
    by (rule calculate_session_duration_nonempty)
  have "successively (split_between g) (session_loop g first rest (new_session first) [])"
    by (rule session_loop_split) (simp_all add: new_session_def)
  then have "successively (\<lambda>s t. split_between g s t)
      (session_loop g first rest (new_session first) [])"
    by simp
  then show ?thesis
    unfolding c successively_map split_between_def by simp
qed

lemma example_gaps:
  "minutes_between 0 600000000 \<le> of_int 30"
  "\<not> minutes_between 600000000 2700000000 \<le> of_int 30"
  "minutes_between 2700000000 3000000000 \<le> of_int 30"
  by code_simp+

text \<open>
  The gap is the float the code computes.  Two visits 18000000000000001 microseconds apart
  are a little more than 300000000 minutes apart, and their float gap is 300000000.0; a
  session of 0.3 seconds has the duration 0.01, the float nearest to 0.005 being above it.
\<close>

lemma minutes_between_near:
  "\<bar>minutes_between a b - of_int (b - a) / 60000000\<bar>
     \<le> 3 * \<bar>of_int (b - a) / 60000000\<bar> / 2 ^ 53"
proof -
  define x :: rat where "x = of_int (b - a) / 1000000"
  define s where "s = round_to_double x"
  have m: "minutes_between a b = round_to_double (s / 60)"
    by (simp add: minutes_between_def total_seconds_def float_div_int_def s_def x_def)
  have e: "of_int (b - a) / 60000000 = x / 60"
    by (simp add: x_def)
  have "\<bar>s\<bar> \<le> 2 * \<bar>x\<bar>"
    unfolding s_def by (rule round_to_double_bound)
  then have "\<bar>s / 60\<bar> / 2 ^ 53 \<le> 2 * \<bar>x / 60\<bar> / 2 ^ 53"
    by (simp add: divide_right_mono)
  with round_to_double_near [of "s / 60"]
  have 1: "\<bar>round_to_double (s / 60) - s / 60\<bar> \<le> 2 * \<bar>x / 60\<bar> / 2 ^ 53"
    by (rule order_trans)
  have "\<bar>s - x\<bar> \<le> \<bar>x\<bar> / 2 ^ 53"
    unfolding s_def by (rule round_to_double_near)
  then have "\<bar>s - x\<bar> / 60 \<le> \<bar>x\<bar> / 2 ^ 53 / 60"
    by (rule divide_right_mono) simp
  moreover have "\<bar>s / 60 - x / 60\<bar> = \<bar>s - x\<bar> / 60"
    by (simp add: diff_divide_distrib [symmetric])
  ultimately have 2: "\<bar>s / 60 - x / 60\<bar> \<le> \<bar>x / 60\<bar> / 2 ^ 53"
    by simp
  have "\<bar>round_to_double (s / 60) - x / 60\<bar>
      \<le> \<bar>round_to_double (s / 60) - s / 60\<bar> + \<bar>s / 60 - x / 60\<bar>"
    by simp
  also have "\<dots> \<le> 2 * \<bar>x / 60\<bar> / 2 ^ 53 + \<bar>x / 60\<bar> / 2 ^ 53"
    using 1 2 by (rule add_mono)
  also have "\<dots> = 3 * \<bar>x / 60\<bar> / 2 ^ 53"
    by simp
  finally show ?thesis
    unfolding m e .
qed

lemma example_float_gap:
  "minutes_between 0 18000000000000001 \<le> of_int 300000000"
  "round2 (minutes_between 0 300000) = round_to_double (1 / 100)"
  by code_simp+

lemma sessions_example:
  assumes "map visit_time es = [0, 600000000, 2700000000, 3000000000]"
  shows "map entry_count (calculate_session_duration es 30) = [2, 2]"
proof -
  from assms obtain a b c d where es: "es = [a, b, c, d]"
    and t: "visit_time a = 0" "visit_time b = 600000000" "visit_time c = 2700000000"
      "visit_time d = 3000000000"
    by (auto simp: map_eq_Cons_conv)
  have sorted: "sort_key visit_time [a, b, c, d] = [a, b, c, d]"
    by (simp add: t)
  have loop: "map session_entries (session_loop 30 a [b, c, d] (new_session a) [])
      = [[a, b], [c, d]]"
    by (simp add: t example_gaps new_session_def Let_def del: of_int_numeral)
  have "map entry_count (calculate_session_duration es 30)
      = map length (map session_entries (session_loop 30 a [b, c, d] (new_session a) []))"
    unfolding es calculate_session_duration_def sorted by (simp add: comp_def)
  then show ?thesis
    unfolding loop by simp
qed

lemma sessions_single:
  "map session_entries (calculate_session_duration [e] g) = [[e]]
   \<and> map duration_minutes (calculate_session_duration [e] g) = [0]"
  by (simp add: calculate_session_duration_def new_session_def minutes_between_def round2_def
      total_seconds_def float_div_int_def round_to_double_def round_half_even_def)

text \<open>
  C7.  The sessions, one after the other, hold the entries sorted by visit time.  Inside a
  session consecutive entries are at most the gap apart; \<open>start\<close>, \<open>end\<close> and the entry
  count are those of its entries; between two consecutive sessions the gap is strictly
  greater than the threshold.  The gap between two entries is the float
  \<open>(b - a).total_seconds() / 60\<close> of the code, compared with the threshold as it is; it is
  the number of minutes between the two visits up to the fraction \<open>3 / 2^53\<close> of it.  Entries at 0, 10, 45 and 50 minutes with a gap of 30 give
  two sessions of two entries each; no entries give no sessions; one entry gives one
  session of zero duration.
\<close>

theorem session_segmentation:
  "concat (map session_entries (calculate_session_duration entries g))
     = sort_key visit_time entries
   \<and> sorted (map visit_time (concat (map session_entries (calculate_session_duration entries g))))
   \<and> (\<forall>s \<in> set (calculate_session_duration entries g).
         session_entries s \<noteq> []
         \<and> successively (\<lambda>a b. minutes_between (visit_time a) (visit_time b) \<le> of_int g)
             (session_entries s)
         \<and> session_start s = visit_time (hd (session_entries s))
         \<and> session_end s = visit_time (last (session_entries s))
         \<and> entry_count s = length (session_entries s))
   \<and> successively
         (\<lambda>s t. minutes_between (visit_time (last (session_entries s)))
                   (visit_time (hd (session_entries t))) > of_int g)
         (calculate_session_duration entries g)
   \<and> (map visit_time entries = [0, 600000000, 2700000000, 3000000000] \<longrightarrow>
         map entry_count (calculate_session_duration entries 30) = [2, 2])
   \<and> calculate_session_duration [] g = []
   \<and> map session_entries (calculate_session_duration [e] g) = [[e]]
   \<and> map duration_minutes (calculate_session_duration [e] g) = [0]
   \<and> \<bar>minutes_between a b - of_int (b - a) / 60000000\<bar>
       \<le> 3 * \<bar>of_int (b - a) / 60000000\<bar> / 2 ^ 53"
proof (intro conjI ballI impI)
  show "\<bar>minutes_between a b - of_int (b - a) / 60000000\<bar>
       \<le> 3 * \<bar>of_int (b - a) / 60000000\<bar> / 2 ^ 53"
    by (rule minutes_between_near)
  show "concat (map session_entries (calculate_session_duration entries g))
     = sort_key visit_time entries"
    by (rule sessions_concat)
  show "sorted (map visit_time
      (concat (map session_entries (calculate_session_duration entries g))))"
    unfolding sessions_concat by simp
  show "calculate_session_duration [] g = []"
    by (simp add: calculate_session_duration_def)
  show "successively
         (\<lambda>s t. minutes_between (visit_time (last (session_entries s)))
                   (visit_time (hd (session_entries t))) > of_int g)
         (calculate_session_duration entries g)"
    by (rule sessions_split)
  show "map session_entries (calculate_session_duration [e] g) = [[e]]"
    "map duration_minutes (calculate_session_duration [e] g) = [0]"
    using sessions_single [of e g] by simp_all
next
  fix s
  assume "s \<in> set (calculate_session_duration entries g)"
  note w = sessions_well_formed [OF this]
  from w show "session_entries s \<noteq> []" by simp
  from w show "successively
      (\<lambda>a b. minutes_between (visit_time a) (visit_time b) \<le> of_int g) (session_entries s)"
    by simp
  from w show "session_start s = visit_time (hd (session_entries s))" by simp
  from w show "session_end s = visit_time (last (session_entries s))" by simp
  from w show "entry_count s = length (session_entries s)" by simp
next
  assume "map visit_time entries = [0, 600000000, 2700000000, 3000000000]"
  then show "map entry_count (calculate_session_duration entries 30) = [2, 2]"
    by (rule sessions_example)
qed

lemma example_entries_times:
  "map visit_time example_entries = [0, 600000000, 2700000000, 3000000000]"
  by (simp add: example_entries_def HistoryEntry_init_def)

theorem session_segmentation_witness:
  "map visit_time example_entries = [0, 600000000, 2700000000, 3000000000]
   \<and> map entry_count (calculate_session_duration example_entries 30) = [2, 2]
   \<and> concat (map session_entries (calculate_session_duration example_entries 30))
       = sort_key visit_time example_entries
   \<and> map entry_id (sort_key visit_time (rev example_entries)) = [1, 2, 3, 4]"
  using session_segmentation [of example_entries 30 "hd example_entries"]
  by (simp add: example_entries_times)
     (simp add: example_entries_def HistoryEntry_init_def)


section \<open>Properties of the generic introspection\<close>

lemma validate_table_name_cached:
  assumes "validate_table_name self t = (ok, self')"
  shows "validate_table_name self' t = (ok, self')"
    and "conn self'
           = (conn self)\<lparr>executed :=
               executed (conn self)
                 @ (if valid_tables self = None then [(TABLES_QUERY, [])] else [])\<rparr>"
  using assms
  by (auto simp: validate_table_name_def get_tables_def cursor_execute_def Let_def
      split: option.splits)

text \<open>
  \<open>get_table_info\<close>, \<open>get_table_data\<close> and \<open>get_row_count\<close> check the name first: on a name
  that is not in the allow-list they raise ValueError, and the only statement they may
  have run is the query that fills the allow-list.
\<close>

lemma checked_operations_reject:
  assumes "\<not> fst (validate_table_name self t)"
  shows "fst (get_table_info self t) = Inl (ValueError (''Invalid table name: '' @ t))"
    and "fst (get_table_data decode self t limit offset)
           = Inl (ValueError (''Invalid table name: '' @ t))"
    and "fst (get_row_count self t) = Inl (ValueError (''Invalid table name: '' @ t))"
    and "snd (get_table_info self t) = snd (validate_table_name self t)"
    and "snd (get_table_data decode self t limit offset) = snd (validate_table_name self t)"
    and "snd (get_row_count self t) = snd (validate_table_name self t)"
  using assms
  by (simp_all add: get_table_info_def get_table_data_def get_row_count_def split_def)

lemma get_column_names_valid:
  assumes v: "validate_table_name self t = (True, self1)"
    and ident: "is_identifier (conn self) t"
    and tb: "find_table (snapshot (conn self)) t = Some tb"
  shows "get_column_names self1 t
     = (Inr (map col_name (tbl_columns tb)),
        self1\<lparr>conn := cursor_execute (conn self1) (''PRAGMA table_info('' @ t @ '')'') []\<rparr>)"
proof -
  note c = validate_table_name_cached [OF v]
  have "is_identifier (cursor_execute (conn self1) q ps) t" for q ps
    using ident by (simp add: c(2) is_identifier_def cursor_execute_def)
  moreover have "find_table (snapshot (cursor_execute (conn self1) q ps)) t = Some tb" for q ps
    using tb by (simp add: c(2) cursor_execute_def)
  ultimately show ?thesis
    by (simp add: get_column_names_def get_table_info_def c(1) engine_table_info_def Let_def)
qed

text \<open>
  C10.  For a table name that passes the check, that the engine reads as one identifier
  and that names a table of the database: with \<open>limit\<close> absent or 0 the statement is
  \<open>SELECT * FROM name\<close> with no \<open>LIMIT\<close> or \<open>OFFSET\<close>, every row of the table is returned
  and \<open>offset\<close> plays no part; with any other \<open>limit\<close> the statement carries
  \<open>LIMIT max(0, limit) OFFSET max(0, offset)\<close>, and, the two numbers being below \<open>2^63\<close>,
  the rows returned are those the two clamped numbers select; from \<open>2^63\<close> on the engine
  refuses the statement.
\<close>

theorem get_table_data_limit:
  assumes "fst (validate_table_name self t)"
    and "is_identifier (conn self) t"
    and "find_table (snapshot (conn self)) t = Some tb"
  shows "(limit = None \<or> limit = Some 0 \<longrightarrow>
            fst (get_table_data decode self t limit offset)
              = Inr (map col_name (tbl_columns tb),
                     map (row_dict decode (map col_name (tbl_columns tb))) (tbl_rows tb))
            \<and> last (executed (conn (snd (get_table_data decode self t limit offset))))
              = (''SELECT * FROM '' @ t, []))
       \<and> (\<forall>l. limit = Some l \<and> l \<noteq> 0 \<and> l < 2 ^ 63 \<and> offset < 2 ^ 63 \<longrightarrow>
            fst (get_table_data decode self t limit offset)
              = Inr (map col_name (tbl_columns tb),
                     map (row_dict decode (map col_name (tbl_columns tb)))
                       (take (nat (max 0 l)) (drop (nat (max 0 offset)) (tbl_rows tb)))))
       \<and> (\<forall>l. limit = Some l \<and> l \<noteq> 0 \<and> (2 ^ 63 \<le> l \<or> 2 ^ 63 \<le> offset) \<longrightarrow>
            fst (get_table_data decode self t limit offset)
              = Inl (IntegrityError ''datatype mismatch''))
       \<and> (\<forall>l. limit = Some l \<and> l \<noteq> 0 \<longrightarrow>
            last (executed (conn (snd (get_table_data decode self t limit offset))))
              = (''SELECT * FROM '' @ t @ '' LIMIT '' @ str_int (max 0 l)
                   @ '' OFFSET '' @ str_int (max 0 offset), []))"
proof -
  obtain self1 where v: "validate_table_name self t = (True, self1)"
    using assms(1) by (cases "validate_table_name self t") auto
  note c = validate_table_name_cached [OF v]
  note n = get_column_names_valid [OF v assms(2,3)]
  have id1: "is_identifier (cursor_execute (cursor_execute (conn self1) q ps) q' ps') t"
    for q ps q' ps'
    using assms(2) by (simp add: c(2) is_identifier_def cursor_execute_def)
  have tb1: "find_table (snapshot (cursor_execute (cursor_execute (conn self1) q ps) q' ps')) t
      = Some tb" for q ps q' ps'
    using assms(3) by (simp add: c(2) cursor_execute_def)
  have sel: "engine_select_all (cursor_execute (cursor_execute (conn self1) q ps) q' ps') q' t cl
      = (case cl of
           None \<Rightarrow> Inr (tbl_rows tb)
         | Some (l, off) \<Rightarrow>
             if \<not> sqlite_int64 l \<or> \<not> sqlite_int64 off
             then Inl (IntegrityError ''datatype mismatch'')
             else Inr (if l < 0 then drop (nat off) (tbl_rows tb)
                       else take (nat l) (drop (nat off) (tbl_rows tb))))" for q ps q' ps' cl
    by (simp add: engine_select_all_def id1 tb1 Let_def split: option.splits)
  have ex: "last (executed (cursor_execute cn q ps)) = (q, ps)" for cn q ps
    by (simp add: cursor_execute_def)
  have none: "limit = None \<or> limit = Some 0 \<Longrightarrow>
      get_table_data decode self t limit offset
        = (Inr (map col_name (tbl_columns tb),
                map (row_dict decode (map col_name (tbl_columns tb))) (tbl_rows tb)),
           self1\<lparr>conn := cursor_execute
              (cursor_execute (conn self1) (''PRAGMA table_info('' @ t @ '')'') [])
              (''SELECT * FROM '' @ t) []\<rparr>)"
    by (auto simp: get_table_data_def v n sel Let_def)
  have some: "limit = Some l \<Longrightarrow> l \<noteq> 0 \<Longrightarrow>
      get_table_data decode self t limit offset
        = (let q = ''SELECT * FROM '' @ t @ '' LIMIT '' @ str_int (max 0 l)
                     @ '' OFFSET '' @ str_int (max 0 offset);
               self2 = self1\<lparr>conn := cursor_execute
                  (cursor_execute (conn self1) (''PRAGMA table_info('' @ t @ '')'') []) q []\<rparr>
           in if \<not> sqlite_int64 (max 0 l) \<or> \<not> sqlite_int64 (max 0 offset)
              then (Inl (IntegrityError ''datatype mismatch''), self2)
              else (Inr (map col_name (tbl_columns tb),
                         map (row_dict decode (map col_name (tbl_columns tb)))
                           (take (nat (max 0 l)) (drop (nat (max 0 offset)) (tbl_rows tb)))),
                    self2))" for l
    by (simp add: get_table_data_def v n sel Let_def)
  have in64: "sqlite_int64 (max 0 k) \<longleftrightarrow> k < 2 ^ 63" for k
    by (auto simp: sqlite_int64_def max_def)
  show ?thesis
  proof (intro conjI allI impI)
    assume "limit = None \<or> limit = Some 0"
    from none [OF this]
    show "fst (get_table_data decode self t limit offset)
        = Inr (map col_name (tbl_columns tb),
               map (row_dict decode (map col_name (tbl_columns tb))) (tbl_rows tb))"
      and "last (executed (conn (snd (get_table_data decode self t limit offset))))
        = (''SELECT * FROM '' @ t, [])"
      by (simp_all add: ex)
  next
    fix l
    assume "limit = Some l \<and> l \<noteq> 0 \<and> l < 2 ^ 63 \<and> offset < 2 ^ 63"
    then show "fst (get_table_data decode self t limit offset)
        = Inr (map col_name (tbl_columns tb),
               map (row_dict decode (map col_name (tbl_columns tb)))
                 (take (nat (max 0 l)) (drop (nat (max 0 offset)) (tbl_rows tb))))"
      using some [of l] by (simp add: in64 Let_def)
  next
    fix l
    assume "limit = Some l \<and> l \<noteq> 0 \<and> (2 ^ 63 \<le> l \<or> 2 ^ 63 \<le> offset)"
    then show "fst (get_table_data decode self t limit offset)
        = Inl (IntegrityError ''datatype mismatch'')"
      using some [of l] by (auto simp: in64 Let_def)
  next
    fix l
    assume "limit = Some l \<and> l \<noteq> 0"
    then show "last (executed (conn (snd (get_table_data decode self t limit offset))))
        = (''SELECT * FROM '' @ t @ '' LIMIT '' @ str_int (max 0 l)
             @ '' OFFSET '' @ str_int (max 0 offset), [])"
      using some [of l] by (simp add: ex Let_def)
  qed
qed

lemma example_validate:
  "fst (validate_table_name example_parser ''urls'')"
  "is_identifier (conn example_parser) ''urls''"
  "find_table (snapshot (conn example_parser)) ''urls'' = Some example_urls"
  by code_simp+

lemma example_str_int: "str_int 0 = ''0''" "str_int 1 = ''1''" "str_int 2 = ''2''"
  by code_simp+

theorem get_table_data_limit_witness:
  "fst (validate_table_name example_parser ''urls'')
   \<and> is_identifier (conn example_parser) ''urls''
   \<and> find_table (snapshot (conn example_parser)) ''urls'' = Some example_urls
   \<and> map (map snd) (snd (projr (fst (get_table_data example_decode example_parser ''urls''
        (Some 0) 2))))
      = [[SQLInteger 1, SQLText ''https://example.org/''],
         [SQLInteger 2, SQLText ''https://example.org/a''],
         [SQLInteger 3, SQLText ''https://example.net/'']]
   \<and> last (executed (conn (snd (get_table_data example_decode example_parser ''urls''
        (Some 0) 2)))) = (''SELECT * FROM urls'', [])
   \<and> map (map snd) (snd (projr (fst (get_table_data example_decode example_parser ''urls''
        (Some (- 1)) 2)))) = []
   \<and> map (map snd) (snd (projr (fst (get_table_data example_decode example_parser ''urls''
        (Some 2) 1))))
      = [[SQLInteger 2, SQLText ''https://example.org/a''],
         [SQLInteger 3, SQLText ''https://example.net/'']]
   \<and> last (executed (conn (snd (get_table_data example_decode example_parser ''urls''
        (Some 2) 1)))) = (''SELECT * FROM urls LIMIT 2 OFFSET 1'', [])
   \<and> fst (get_table_data example_decode example_parser ''urls'' (Some (2 ^ 63)) 0)
      = Inl (IntegrityError ''datatype mismatch'')"
  using get_table_data_limit [OF example_validate, of "Some 0" example_decode 2]
    get_table_data_limit [OF example_validate, of "Some (- 1)" example_decode 2]
    get_table_data_limit [OF example_validate, of "Some 2" example_decode 1]
    get_table_data_limit [OF example_validate, of "Some (2 ^ 63)" example_decode 0]
  by (simp add: example_validate example_urls_def row_dict_def py_value_def example_str_int)

text \<open>
  A name of the allow-list that is not one identifier, a table called \<open>my table\<close> for one,
  is interpolated as it is; the answer is then the engine's to that text, a syntax error
  in the example.
\<close>

lemma example_quoting:
  "fst (get_table_data example_decode
          (example_parser\<lparr>conn := example_connection
             \<lparr>snapshot := [example_urls\<lparr>tbl_name := ''my table''\<rparr>]\<rparr>\<rparr>)
          ''my table'' None 0)
     = Inl (OperationalError ''syntax error'')"
  by code_simp

text \<open>
  With a list of columns, the first statement \<open>search_table\<close> runs is the \<open>SELECT\<close> with the
  table name and the column names as the caller gave them, whatever the allow-list holds.
\<close>

lemma search_table_first_statement:
  "executed (conn (snd (search_table decode self t term (Some cols))))
     ! length (executed (conn self))
   = (''SELECT * FROM '' @ t @ '' WHERE '' @ join '' OR '' (map (\<lambda>col. col @ '' LIKE ?'') cols),
      map (\<lambda>_. SQLText (''%'' @ term @ ''%'')) cols)"
proof -
  let ?q = "''SELECT * FROM '' @ t @ '' WHERE '' @ join '' OR '' (map (\<lambda>col. col @ '' LIKE ?'') cols)"
  let ?p = "map (\<lambda>_. SQLText (''%'' @ term @ ''%'')) cols"
  let ?self = "self\<lparr>conn := cursor_execute (conn self) ?q ?p\<rparr>"
  have grow: "\<exists>more. executed (conn (snd (get_column_names s t)))
      = executed (conn s) @ more" for s
    by (auto simp: get_column_names_def get_table_info_def validate_table_name_def
        get_tables_def cursor_execute_def Let_def split: option.splits prod.splits sum.splits)
  have "\<exists>more. executed (conn (snd (search_table decode self t term (Some cols))))
      = executed (conn ?self) @ more"
    using grow [of ?self]
    by (auto simp: search_table_def Let_def split: sum.splits prod.splits)
  then obtain more where "executed (conn (snd (search_table decode self t term (Some cols))))
      = executed (conn self) @ (?q, ?p) # more"
    by (auto simp: cursor_execute_def)
  then show ?thesis
    by (simp add: nth_append)
qed

text \<open>
  C1.  \<open>search_table\<close> with a list of columns does not check the table name: on the
  internal table \<open>sqlite_sequence\<close>, which the allow-list does not contain and which
  \<open>get_table_data\<close> and \<open>get_row_count\<close> refuse without a statement, it first runs a
  \<open>SELECT\<close> with the name and the column names interpolated, and only then the check of
  \<open>get_column_names\<close> raises.  On the table \<open>urls\<close> it interpolates the column names it is
  given, whatever they are.  The search term is a bound parameter.
\<close>

theorem search_table_skips_validation:
  "\<not> fst (validate_table_name example_parser ''sqlite_sequence'')
   \<and> fst (search_table example_decode example_parser ''sqlite_sequence'' ''url'' (Some [''name'']))
       = Inl (ValueError ''Invalid table name: sqlite_sequence'')
   \<and> executed (conn (snd (search_table example_decode example_parser ''sqlite_sequence''
        ''url'' (Some [''name'']))))
       = [(''SELECT * FROM sqlite_sequence WHERE name LIKE ?'', [SQLText ''%url%'']),
          (TABLES_QUERY, [])]
   \<and> fst (get_table_data example_decode example_parser ''sqlite_sequence'' None 0)
       = Inl (ValueError ''Invalid table name: sqlite_sequence'')
   \<and> executed (conn (snd (get_table_data example_decode example_parser ''sqlite_sequence''
        None 0))) = [(TABLES_QUERY, [])]
   \<and> fst (get_row_count example_parser ''sqlite_sequence'')
       = Inl (ValueError ''Invalid table name: sqlite_sequence'')
   \<and> executed (conn (snd (get_row_count example_parser ''sqlite_sequence'')))
       = [(TABLES_QUERY, [])]
   \<and> executed (conn (snd (search_table example_decode example_parser ''urls'' ''org''
        (Some [''title'', ''1=1 OR url'']))))
       = [(''SELECT * FROM urls WHERE title LIKE ? OR 1=1 OR url LIKE ?'',
           [SQLText ''%org%'', SQLText ''%org%''])]"
  by code_simp


section \<open>Properties of the safe database access\<close>

subsection \<open>Untouched paths\<close>

lemma untouched_refl: "untouched p w w"
  by (simp add: untouched_def)

lemma untouched_trans: "untouched p w w' \<Longrightarrow> untouched p w' w'' \<Longrightarrow> untouched p w w''"
  unfolding untouched_def
  apply (elim conjE exE)
  subgoal for es es'
    by (intro conjI exI [of _ "es @ es'"]) auto
  done

lemma untouched_log: "\<not> mutates p e \<Longrightarrow> untouched p w (log_event e w)"
  by (simp add: untouched_def log_event_def)

lemma untouched_write: "q \<noteq> p \<Longrightarrow> untouched p w (write_file q n w)"
  by (simp add: untouched_def write_file_def)

lemma untouched_unlink: "q \<noteq> p \<Longrightarrow> untouched p w (unlink q w)"
  by (auto simp: untouched_def unlink_def log_event_def Let_def split: option.splits)

lemma untouched_unlink_if_exists: "q \<noteq> p \<Longrightarrow> untouched p w (unlink_if_exists q w)"
  by (simp add: unlink_if_exists_def untouched_refl untouched_unlink)

subsection \<open>Paths with a database extension\<close>

lemma has_db_extension_last:
  assumes "has_db_extension p"
  shows "p \<noteq> [] \<and> lower_char (last p) \<in> {CHR ''b'', CHR ''e'', CHR ''3''}"
proof -
  from assms obtain ext where e: "ext \<in> set allowed_extensions" and s: "suffix ext (lower p)"
    by (auto simp: has_db_extension_def endswith_def list_ex_iff)
  from e have ne: "ext \<noteq> []" and l: "last ext \<in> {CHR ''b'', CHR ''e'', CHR ''3''}"
    by (auto simp: allowed_extensions_def)
  from s obtain xs where x: "lower p = xs @ ext"
    by (auto simp: suffix_def)
  with ne have "lower p \<noteq> []" by simp
  then have pne: "p \<noteq> []" by (auto simp: lower_def)
  from x ne have "last (lower p) = last ext" by simp
  moreover have "last (lower p) = lower_char (last p)"
    using pne by (simp add: lower_def last_map)
  ultimately show ?thesis using pne l by simp
qed

lemma lower_char_l_m_r:
  "lower_char (CHR ''l'') = CHR ''l''" "lower_char (CHR ''m'') = CHR ''m''"
  "lower_char (CHR ''r'') = CHR ''r''"
  by (simp_all add: lower_char_def)

lemma db_path_not_suffixed:
  assumes "has_db_extension p" and "c \<in> {CHR ''l'', CHR ''m'', CHR ''r''}"
  shows "p \<noteq> xs @ [c]"
proof
  assume "p = xs @ [c]"
  then have "last p = c" by simp
  with has_db_extension_last [OF assms(1)] assms(2) show False
    by (auto simp: lower_char_l_m_r)
qed

lemma basename_last:
  assumes "c \<noteq> CHR ''/''"
  shows "\<exists>ys. basename (xs @ [c]) = ys @ [c]"
  using assms by (simp add: basename_def)

lemma sidecar_targets_differ:
  assumes "has_db_extension p" and "ext = ''-wal'' \<or> ext = ''-shm''"
  shows "temp @ ext \<noteq> p" and "temp @ ext @ ''/'' @ basename (source @ ext) \<noteq> p"
proof -
  from assms(2) obtain pre c where ext: "ext = pre @ [c]" and c: "c = CHR ''l'' \<or> c = CHR ''m''"
    by (elim disjE) (auto intro: that [of "''-wa''" "CHR ''l''"] that [of "''-sh''" "CHR ''m''"])
  from c have cs: "c \<in> {CHR ''l'', CHR ''m'', CHR ''r''}" and nsl: "c \<noteq> CHR ''/''"
    by auto
  have "temp @ ext = (temp @ pre) @ [c]"
    by (simp add: ext)
  then show "temp @ ext \<noteq> p"
    using db_path_not_suffixed [OF assms(1) cs, of "temp @ pre"] by metis
  from basename_last [OF nsl, of "source @ pre"] obtain ys
    where "basename (source @ ext) = ys @ [c]"
    by (auto simp: ext)
  then have "temp @ ext @ ''/'' @ basename (source @ ext) = (temp @ ext @ ''/'' @ ys) @ [c]"
    by simp
  then show "temp @ ext @ ''/'' @ basename (source @ ext) \<noteq> p"
    using db_path_not_suffixed [OF assms(1) cs, of "temp @ ext @ ''/'' @ ys"] by metis
qed

lemma temp_dir_differs:
  assumes "has_db_extension p"
  shows "tmp @ ''/BrowserHunter'' \<noteq> p"
proof -
  have "tmp @ ''/BrowserHunter'' = (tmp @ ''/BrowserHunte'') @ [CHR ''r'']"
    by simp
  then show ?thesis
    using db_path_not_suffixed [OF assms, of "CHR ''r''" "tmp @ ''/BrowserHunte''"] by auto
qed

subsection \<open>The steps of a cycle\<close>

lemma copy_sidecar_untouched:
  assumes "has_db_extension p" and "ext = ''-wal'' \<or> ext = ''-shm''"
  shows "untouched p w (copy_sidecar source temp ext w)"
proof -
  note ne = sidecar_targets_differ [OF assms, of temp]
    sidecar_targets_differ(2) [OF assms, of temp source]
  show ?thesis
    using ne
    by (auto simp: copy_sidecar_def untouched_def write_file_def log_event_def Let_def
        split: option.splits)
qed

lemma create_temp_copy_untouched:
  assumes ext: "has_db_extension p" and ex: "files w p \<noteq> None"
    and r: "create_temp_copy env self w = (r, w')"
  shows "untouched p w w' \<and> (\<forall>t. r = Inr t \<longrightarrow> t \<noteq> p)"
proof -
  let ?dir = "gettempdir env @ ''/BrowserHunter''"
  let ?temp = "?dir @ ''/bhh_'' @ random_name env @ ''.db''"
  define w1 where "w1 =
    (case files w ?dir of
       None \<Rightarrow>
         write_file ?dir
           \<lparr>kind = Directory, content = [], mode = 448, readable = True, read_error = False\<rparr>
           (log_event (Mkdir ?dir 448) w)
     | Some d \<Rightarrow>
         if mode d \<noteq> 448
         then write_file ?dir (d\<lparr>mode := 448\<rparr>) (log_event (Chmod ?dir 448) w)
         else w)"
  have dir: "?dir \<noteq> p"
    by (rule temp_dir_differs [OF ext])
  have u1: "untouched p w w1"
    using dir
    by (auto simp: w1_def untouched_def write_file_def log_event_def split: option.splits)
  then have f1: "files w1 p = files w p"
    by (simp add: untouched_def)
  show ?thesis
  proof (cases "(case files w1 ?dir of None \<Rightarrow> True | Some d \<Rightarrow> kind d \<noteq> Directory)
      \<or> files w1 ?temp \<noteq> None")
    case True
    then have "w' = w1 \<and> (\<forall>t. r \<noteq> Inr t)"
      using r unfolding create_temp_copy_def Let_def w1_def [symmetric]
      by (auto split: if_splits)
    with u1 show ?thesis by simp
  next
    case False
    then have free: "files w1 ?temp = None" by simp
    with f1 ex have tp: "?temp \<noteq> p" by auto
    define w2 where
      "w2 = log_event (OpenRead (db_path self))
              (write_file ?temp (new_file [] 384) (log_event (OpenWrite ?temp) w1))"
    have u2: "untouched p w1 w2"
      using tp by (auto simp: w2_def untouched_def write_file_def log_event_def)
    have rr: "(r, w') =
      (case files w2 (db_path self) of
         None \<Rightarrow> (Inl (RuntimeError ''Failed to create temporary database copy''), w2)
       | Some src \<Rightarrow>
           if kind src = Directory \<or> \<not> readable src \<or> read_error src
           then (Inl (RuntimeError ''Failed to create temporary database copy''), w2)
           else
             (Inr ?temp,
              copy_sidecar (db_path self) ?temp ''-shm''
                (copy_sidecar (db_path self) ?temp ''-wal''
                   (log_event (Chmod ?temp 384)
                      (write_file ?temp (new_file (content src) 384) w2)))))"
      using r False unfolding create_temp_copy_def Let_def w1_def [symmetric] w2_def
      by (simp split: option.splits)
    have u3: "untouched p w2
        (copy_sidecar (db_path self) ?temp ''-shm''
           (copy_sidecar (db_path self) ?temp ''-wal''
              (log_event (Chmod ?temp 384) (write_file ?temp (new_file c 384) w2))))" for c
    proof -
      let ?w3 = "log_event (Chmod ?temp 384) (write_file ?temp (new_file c 384) w2)"
      have a: "untouched p w2 (write_file ?temp (new_file c 384) w2)"
        using tp by (rule untouched_write)
      have b: "untouched p (write_file ?temp (new_file c 384) w2) ?w3"
        using tp by (intro untouched_log) simp
      have c: "untouched p ?w3 (copy_sidecar (db_path self) ?temp ''-wal'' ?w3)"
        by (rule copy_sidecar_untouched [OF ext]) simp
      have d: "untouched p (copy_sidecar (db_path self) ?temp ''-wal'' ?w3)
          (copy_sidecar (db_path self) ?temp ''-shm''
             (copy_sidecar (db_path self) ?temp ''-wal'' ?w3))"
        by (rule copy_sidecar_untouched [OF ext]) simp
      show ?thesis
        by (rule untouched_trans [OF untouched_trans [OF untouched_trans [OF a b] c] d])
    qed
    have "untouched p w2 w' \<and> (\<forall>t. r = Inr t \<longrightarrow> t \<noteq> p)"
      using rr u3 tp by (auto split: option.splits if_splits simp: untouched_refl)
    with u1 u2 show ?thesis
      using untouched_trans by blast
  qed
qed

lemma connect_untouched:
  assumes ext: "has_db_extension p" and ex: "files w p \<noteq> None"
    and fresh: "connection self = None" "temp_db_path self = None"
    and r: "connect env self w = (r, self', w')"
  shows "untouched p w w' \<and> (\<forall>t. temp_db_path self' = Some t \<longrightarrow> t \<noteq> p)"
proof (cases "create_temp_copy env self w")
  case (Pair res w1)
  note c = create_temp_copy_untouched [OF ext ex Pair]
  show ?thesis
  proof (cases res)
    case (Inl e)
    with r Pair fresh have "w' = w1" "self' = self"
      by (simp_all add: connect_def)
    with c fresh show ?thesis by simp
  next
    case (Inr temp)
    with r Pair fresh have w': "w' = log_event (OpenRead temp) w1"
      and s': "temp_db_path self' = Some temp"
      by (auto simp: connect_def)
    have "untouched p w1 w'"
      unfolding w' by (rule untouched_log) simp
    with c have "untouched p w w'"
      using untouched_trans by blast
    moreover from c Inr have "temp \<noteq> p"
      by simp
    ultimately show ?thesis
      using s' by simp
  qed
qed

lemma close_untouched:
  assumes ext: "has_db_extension p" and t: "\<forall>t. temp_db_path self = Some t \<longrightarrow> t \<noteq> p"
  shows "untouched p w (snd (close self w))"
proof (cases "temp_db_path self")
  case None
  then show ?thesis by (simp add: close_def untouched_refl)
next
  case (Some temp)
  with t have tp: "temp \<noteq> p" by simp
  have wal: "temp @ ''-wal'' \<noteq> p" and shm: "temp @ ''-shm'' \<noteq> p"
    by (rule sidecar_targets_differ(1) [OF ext], simp)+
  have a: "untouched p w (unlink temp w)"
    using tp by (rule untouched_unlink)
  have b: "untouched p (unlink temp w) (unlink_if_exists (temp @ ''-wal'') (unlink temp w))"
    using wal by (rule untouched_unlink_if_exists)
  have c: "untouched p (unlink_if_exists (temp @ ''-wal'') (unlink temp w))
      (unlink_if_exists (temp @ ''-shm'') (unlink_if_exists (temp @ ''-wal'') (unlink temp w)))"
    using shm by (rule untouched_unlink_if_exists)
  note all = untouched_trans [OF untouched_trans [OF a b] c]
  show ?thesis
    using Some all by (simp add: close_def Let_def untouched_refl)
qed

subsection \<open>Construction\<close>

lemma calculate_file_hash_returns:
  "\<exists>h. calculate_file_hash env w p = (Inr h, log_event (OpenRead p) w)"
  by (simp add: calculate_file_hash_def Let_def log_event_def split: option.splits)

lemma init_success:
  assumes "BaseParser_init env w path = (Inr self, w1)"
  shows "has_db_extension path" "files w path \<noteq> None" "db_path self = path"
    "temp_db_path self = None" "connection self = None" "untouched path w w1"
proof -
  have v: "validate_database_path env (files w) path"
    using assms by (rule_tac ccontr) (simp add: BaseParser_init_def)
  then show "has_db_extension path"
    by (simp add: validate_database_path_def has_db_extension_def list_ex_iff
        split: option.splits if_splits)
  from v show "files w path \<noteq> None"
    by (simp add: validate_database_path_def split: option.splits)
  obtain h where h: "calculate_file_hash env w path = (Inr h, log_event (OpenRead path) w)"
    using calculate_file_hash_returns by blast
  have "BaseParser_init env w path = (Inr self, w1) \<Longrightarrow>
      self = \<lparr>db_path = path, file_hash = h, temp_db_path = None, connection = None\<rparr>
      \<and> w1 = log_event (OpenRead path) w"
    unfolding BaseParser_init_def h by (simp split: if_splits)
  with assms
  have s: "self = \<lparr>db_path = path, file_hash = h, temp_db_path = None, connection = None\<rparr>"
    and w1: "w1 = log_event (OpenRead path) w"
    by simp_all
  show "db_path self = path" "temp_db_path self = None" "connection self = None"
    by (simp_all add: s)
  show "untouched path w w1"
    unfolding w1 by (rule untouched_log) simp
qed

lemma calculate_file_hash_files:
  "files w' p = files w p \<Longrightarrow>
     fst (calculate_file_hash env w' p) = fst (calculate_file_hash env w p)"
  by (simp add: calculate_file_hash_def Let_def log_event_def split: option.splits)

text \<open>
  C2.  For a parser that was constructed on a path, a full cycle of acquisition and close
  leaves what is stored at the path as it was before the construction: the digest
  computed after the cycle is the digest computed before, and between the two no event
  opens the path for writing, removes it or changes its mode.
\<close>

theorem source_file_never_mutated:
  assumes "BaseParser_init env w path = (Inr self, w1)"
  shows "case acquire_then_close env self w1 of
           (self2, w2) \<Rightarrow>
             files w2 path = files w path
             \<and> fst (calculate_file_hash env w2 path) = fst (calculate_file_hash env w path)
             \<and> (\<exists>es. events w2 = events w @ es \<and> list_all (\<lambda>e. \<not> mutates path e) es)"
proof -
  note i = init_success [OF assms]
  obtain r self' w' where c: "connect env self w1 = (r, self', w')"
    by (cases "connect env self w1") auto
  from i(6) i(2) have ex1: "files w1 path \<noteq> None"
    by (simp add: untouched_def)
  note cu = connect_untouched [OF i(1) ex1 i(5) i(4) c]
  have cl: "untouched path w' (snd (close self' w'))"
    using cu by (intro close_untouched [OF i(1)]) simp
  have "untouched path w (snd (close self' w'))"
    by (rule untouched_trans [OF untouched_trans [OF i(6) conjunct1 [OF cu]] cl])
  moreover have "acquire_then_close env self w1 = close self' w'"
    by (simp add: acquire_then_close_def c)
  ultimately have u: "untouched path w (snd (acquire_then_close env self w1))"
    by simp
  then have "files (snd (acquire_then_close env self w1)) path = files w path"
    by (simp add: untouched_def)
  then have "fst (calculate_file_hash env (snd (acquire_then_close env self w1)) path)
      = fst (calculate_file_hash env w path)"
    by (rule calculate_file_hash_files)
  with u show ?thesis
    by (cases "acquire_then_close env self w1") (simp add: untouched_def)
qed

lemma example_init:
  "BaseParser_init example_env example_world ''/evidence/History.db''
     = (Inr \<lparr>db_path = ''/evidence/History.db'', file_hash = replicate 64 (CHR ''0''),
             temp_db_path = None, connection = None\<rparr>,
        log_event (OpenRead ''/evidence/History.db'') example_world)"
  by (simp add: BaseParser_init_def validate_database_path_def example_env_def
      example_world_def new_file_def dangerous_prefixes_def MAX_DB_SIZE_def
      allowed_extensions_def startswith_def endswith_def lower_def lower_char_def
      is_file_def os_access_R_OK_def calculate_file_hash_def log_event_def Let_def suffix_def)

lemma example_cycle_events:
  "events (snd (acquire_then_close example_env
      \<lparr>db_path = ''/evidence/History.db'', file_hash = replicate 64 (CHR ''0''),
        temp_db_path = None, connection = None\<rparr>
      (log_event (OpenRead ''/evidence/History.db'') example_world)))
   = [OpenRead ''/evidence/History.db'',
      Mkdir ''/tmp/BrowserHunter'' 448,
      OpenWrite ''/tmp/BrowserHunter/bhh_k3x9q2ab.db'',
      OpenRead ''/evidence/History.db'',
      Chmod ''/tmp/BrowserHunter/bhh_k3x9q2ab.db'' 384,
      OpenRead ''/evidence/History.db-wal'',
      OpenWrite ''/tmp/BrowserHunter/bhh_k3x9q2ab.db-wal'',
      Chmod ''/tmp/BrowserHunter/bhh_k3x9q2ab.db-wal'' 384,
      OpenRead ''/tmp/BrowserHunter/bhh_k3x9q2ab.db'',
      Unlink ''/tmp/BrowserHunter/bhh_k3x9q2ab.db'',
      Unlink ''/tmp/BrowserHunter/bhh_k3x9q2ab.db-wal'']"
  by (simp add: acquire_then_close_def connect_def create_temp_copy_def copy_sidecar_def
      close_def unlink_def unlink_if_exists_def write_file_def log_event_def new_file_def
      example_env_def example_world_def Let_def)

theorem source_file_never_mutated_witness:
  "BaseParser_init example_env example_world ''/evidence/History.db''
     = (Inr \<lparr>db_path = ''/evidence/History.db'', file_hash = replicate 64 (CHR ''0''),
             temp_db_path = None, connection = None\<rparr>,
        log_event (OpenRead ''/evidence/History.db'') example_world)
   \<and> files (snd (acquire_then_close example_env
        \<lparr>db_path = ''/evidence/History.db'', file_hash = replicate 64 (CHR ''0''),
          temp_db_path = None, connection = None\<rparr>
        (log_event (OpenRead ''/evidence/History.db'') example_world)))
        ''/evidence/History.db''
      = Some (new_file [83, 81, 76, 105, 116, 101] 420)
   \<and> length (events (snd (acquire_then_close example_env
        \<lparr>db_path = ''/evidence/History.db'', file_hash = replicate 64 (CHR ''0''),
          temp_db_path = None, connection = None\<rparr>
        (log_event (OpenRead ''/evidence/History.db'') example_world)))) = 11"
  using source_file_never_mutated [OF example_init]
  by (simp add: example_init example_cycle_events split_def)
     (simp add: example_world_def)

text \<open>
  C3.  A failure of the hash computation does not abort the construction:
  \<open>calculate_file_hash\<close> turns the failure into a text that starts with \<open>ERROR: \<close>, so the
  handler in the constructor that would raise the integrity error is never entered, on
  no input.  On a readable regular file whose data cannot be read the parser is
  constructed with that text as its hash, which is not a hexadecimal digest.
\<close>

theorem hash_failure_is_not_fatal:
  "fst (BaseParser_init env w path) \<noteq> Inl (ValueError ''Failed to verify file integrity'')
   \<and> fst (BaseParser_init example_env unreadable_world ''/evidence/History.db'')
       = Inr \<lparr>db_path = ''/evidence/History.db'',
              file_hash = ''ERROR: [Errno 5] Input/output error'',
              temp_db_path = None, connection = None\<rparr>
   \<and> \<not> is_hex_digest ''ERROR: [Errno 5] Input/output error''"
proof (intro conjI)
  obtain h where h: "calculate_file_hash env w path = (Inr h, log_event (OpenRead path) w)"
    using calculate_file_hash_returns by blast
  show "fst (BaseParser_init env w path)
      \<noteq> Inl (ValueError ''Failed to verify file integrity'')"
    unfolding BaseParser_init_def h by simp
  show "fst (BaseParser_init example_env unreadable_world ''/evidence/History.db'')
       = Inr \<lparr>db_path = ''/evidence/History.db'',
              file_hash = ''ERROR: [Errno 5] Input/output error'',
              temp_db_path = None, connection = None\<rparr>"
    by (simp add: BaseParser_init_def validate_database_path_def example_env_def
        unreadable_world_def new_file_def dangerous_prefixes_def MAX_DB_SIZE_def
        allowed_extensions_def startswith_def endswith_def lower_def lower_char_def
        is_file_def os_access_R_OK_def calculate_file_hash_def log_event_def Let_def
        suffix_def)
  show "\<not> is_hex_digest ''ERROR: [Errno 5] Input/output error''"
    by (simp add: is_hex_digest_def)
qed

end
